theory Spec2Isabelle
  imports Complex_Main
begin

section \<open>JavaScript numbers and dates used by the trace buffer\<close>

text \<open>
  A time value is a whole number of milliseconds since the epoch, or NaN. It is modelled as
  \<open>int option\<close>, with \<open>None\<close> for NaN. Every comparison with NaN is false.
\<close>

type_synonym jsnum = "int option"

definition js_lt :: "jsnum \<Rightarrow> jsnum \<Rightarrow> bool" where
  "js_lt a b = (case a of None \<Rightarrow> False | Some x \<Rightarrow> (case b of None \<Rightarrow> False | Some y \<Rightarrow> x < y))"

definition js_gt :: "jsnum \<Rightarrow> jsnum \<Rightarrow> bool" where
  "js_gt a b = js_lt b a"

text \<open>
  \<open>new Date(iso)\<close> parses a string by rules that are partly left to the engine, so the
  parser is a parameter of the model: it returns the time value of the parsed date, and
  \<open>None\<close> (an Invalid Date, time value NaN) for a string it does not recognise. It never
  throws.
\<close>

type_synonym date_parser = "string \<Rightarrow> jsnum"

text \<open>The date getters of ECMAScript, on a time value in milliseconds.\<close>

definition msPerDay :: int where
  "msPerDay = 86400000"

definition Day :: "int \<Rightarrow> int" where
  "Day t = t div msPerDay"

text \<open>
  The proleptic Gregorian calendar: year, month (1..12) and day of the month of a day number
  counted from 1970-01-01, and back.
\<close>

definition civil_from_days :: "int \<Rightarrow> int \<times> int \<times> int" where
  "civil_from_days z0 =
     (let z = z0 + 719468;
          era = z div 146097;
          doe = z - era * 146097;
          yoe = (doe - doe div 1460 + doe div 36524 - doe div 146096) div 365;
          y = yoe + era * 400;
          doy = doe - (365 * yoe + yoe div 4 - yoe div 100);
          mp = (5 * doy + 2) div 153;
          d = doy - (153 * mp + 2) div 5 + 1;
          m = (if mp < 10 then mp + 3 else mp - 9)
      in (if m \<le> 2 then y + 1 else y, m, d))"

definition days_from_civil :: "int \<Rightarrow> int \<Rightarrow> int \<Rightarrow> int" where
  "days_from_civil y0 m d =
     (let y = (if m \<le> 2 then y0 - 1 else y0);
          era = y div 400;
          yoe = y - era * 400;
          doy = (153 * (if m > 2 then m - 3 else m + 9) + 2) div 5 + d - 1;
          doe = yoe * 365 + yoe div 4 - yoe div 100 + doy
      in era * 146097 + doe - 719468)"

definition getUTCFullYear :: "int \<Rightarrow> int" where
  "getUTCFullYear t = fst (civil_from_days (Day t))"

definition getUTCMonth :: "int \<Rightarrow> int" where
  "getUTCMonth t = fst (snd (civil_from_days (Day t))) - 1"

definition getUTCDate :: "int \<Rightarrow> int" where
  "getUTCDate t = snd (snd (civil_from_days (Day t)))"

definition getUTCHours :: "int \<Rightarrow> int" where
  "getUTCHours t = (t div 3600000) mod 24"

definition getUTCMinutes :: "int \<Rightarrow> int" where
  "getUTCMinutes t = (t div 60000) mod 60"

definition getUTCSeconds :: "int \<Rightarrow> int" where
  "getUTCSeconds t = (t div 1000) mod 60"

text \<open>
  \<open>Date.UTC(year, month, date, hours, minutes, seconds)\<close> with a zero-based month in 0..11; a
  year from 0 to 99 stands for 1900 + year; a result beyond the range of time values is NaN.
\<close>

definition Date_UTC :: "int \<Rightarrow> int \<Rightarrow> int \<Rightarrow> int \<Rightarrow> int \<Rightarrow> int \<Rightarrow> jsnum" where
  "Date_UTC year month date hours minutes seconds =
     (let yr = (if 0 \<le> year \<and> year \<le> 99 then 1900 + year else year);
          tv = days_from_civil yr (month + 1) date * msPerDay
               + hours * 3600000 + minutes * 60000 + seconds * 1000
      in if \<bar>tv\<bar> \<le> 8640000000000000 then Some tv else None)"

text \<open>
  \<open>DateUtcService.parseIsoToUtc\<close>, as the time value of the date it returns: the date is
  rebuilt from its UTC components down to the second. On an Invalid Date every getter
  returns NaN and so does \<open>Date.UTC\<close>; nothing throws.
\<close>

definition parseIsoToUtc :: "date_parser \<Rightarrow> string \<Rightarrow> jsnum" where
  "parseIsoToUtc D str =
     (case D str of
        None \<Rightarrow> None
      | Some d \<Rightarrow> Date_UTC (getUTCFullYear d) (getUTCMonth d) (getUTCDate d)
                    (getUTCHours d) (getUTCMinutes d) (getUTCSeconds d))"

subsection \<open>A date parser for the strings of the examples\<close>

text \<open>
  The date-time form \<open>YYYY-MM-DDTHH:mm:ssZ\<close> of ECMAScript, which every engine parses the
  same way. Any other string is reported as unrecognised.
\<close>

definition digit_val :: "char \<Rightarrow> nat option" where
  "digit_val c = (let n = of_char c :: nat in if 48 \<le> n \<and> n \<le> 57 then Some (n - 48) else None)"

fun number_of :: "string \<Rightarrow> nat \<Rightarrow> nat option" where
  "number_of [] acc = Some acc"
| "number_of (c # cs) acc =
     (case digit_val c of None \<Rightarrow> None | Some v \<Rightarrow> number_of cs (10 * acc + v))"

definition days_in_month :: "int \<Rightarrow> int \<Rightarrow> int" where
  "days_in_month y m =
     (if m = 2 then (if y mod 4 = 0 \<and> (y mod 100 \<noteq> 0 \<or> y mod 400 = 0) then 29 else 28)
      else if m = 4 \<or> m = 6 \<or> m = 9 \<or> m = 11 then 30 else 31)"

definition isoDateTime :: date_parser where
  "isoDateTime s =
     (if length s = 20 \<and> s ! 4 = CHR ''-'' \<and> s ! 7 = CHR ''-'' \<and> s ! 10 = CHR ''T''
         \<and> s ! 13 = CHR '':'' \<and> s ! 16 = CHR '':'' \<and> s ! 19 = CHR ''Z''
      then
        (case (number_of (take 4 s) 0, number_of (take 2 (drop 5 s)) 0,
               number_of (take 2 (drop 8 s)) 0, number_of (take 2 (drop 11 s)) 0,
               number_of (take 2 (drop 14 s)) 0, number_of (take 2 (drop 17 s)) 0) of
           (Some y, Some m, Some d, Some h, Some mi, Some se) \<Rightarrow>
             (if 1 \<le> m \<and> m \<le> 12 \<and> 1 \<le> d \<and> int d \<le> days_in_month (int y) (int m)
                 \<and> h \<le> 23 \<and> mi \<le> 59 \<and> se \<le> 59
              then Some (days_from_civil (int y) (int m) (int d) * msPerDay
                         + int h * 3600000 + int mi * 60000 + int se * 1000)
              else None)
         | _ \<Rightarrow> None)
      else None)"

section \<open>JavaScript numbers used for coordinates\<close>

text \<open>
  A coordinate is an IEEE 754 double: NaN, an infinity, or a finite double, which is modelled
  as the real number it denotes. The zero is unsigned, since nothing in the trace service
  tells \<open>+0\<close> from \<open>-0\<close> (\<open>toFixed\<close> prints both as \<open>0.000000\<close>).
\<close>

datatype number = NaN | PosInf | NegInf | Fin real

definition pow2 :: "int \<Rightarrow> real" where
  "pow2 e = (if 0 \<le> e then 2 ^ nat e else 1 / 2 ^ nat (- e))"

text \<open>The binade of a positive real \<open>a\<close>: the integer \<open>e\<close> with \<open>2^e \<le> a < 2^(e+1)\<close>.\<close>

function binade :: "real \<Rightarrow> int" where
  "binade a = (if a \<le> 0 then 0
               else if 2 \<le> a then binade (a / 2) + 1
               else if a < 1 then binade (2 * a) - 1
               else 0)"
  by pat_completeness auto
termination
proof (relation "measure (\<lambda>a. if 1 \<le> a \<and> a < 2 then 0 else Suc (nat \<lceil>\<bar>log 2 a\<bar>\<rceil>))")
  show "wf (measure (\<lambda>a. if 1 \<le> a \<and> a < 2 then 0 else Suc (nat \<lceil>\<bar>log 2 a\<bar>\<rceil>)))"
    by simp
next
  fix a :: real
  assume "\<not> a \<le> 0" "2 \<le> a"
  then have l: "log 2 (a / 2) = log 2 a - 1" by (simp add: log_divide)
  show "(a / 2, a) \<in> measure (\<lambda>a. if 1 \<le> a \<and> a < 2 then 0 else Suc (nat \<lceil>\<bar>log 2 a\<bar>\<rceil>))"
  proof (cases "a / 2 < 2")
    case True
    then show ?thesis using \<open>2 \<le> a\<close> by simp
  next
    case False
    then have "4 \<le> a" by simp
    then have "2 \<le> log 2 a" using le_log_iff [of 2 a 2] by simp
    then have "nat \<lceil>\<bar>log 2 a - 1\<bar>\<rceil> < nat \<lceil>\<bar>log 2 a\<bar>\<rceil>"
      by (simp add: abs_if; linarith)
    then show ?thesis using False \<open>2 \<le> a\<close> l by simp
  qed
next
  fix a :: real
  assume a: "\<not> a \<le> 0" "\<not> 2 \<le> a" "a < 1"
  then have l: "log 2 (2 * a) = log 2 a + 1" by (simp add: log_mult)
  show "(2 * a, a) \<in> measure (\<lambda>a. if 1 \<le> a \<and> a < 2 then 0 else Suc (nat \<lceil>\<bar>log 2 a\<bar>\<rceil>))"
  proof (cases "1 \<le> 2 * a")
    case True
    then show ?thesis using a by simp
  next
    case False
    then have "a < 1 / 2" by simp
    then have "log 2 a < - 1"
      using a log_less_iff [of 2 a "-1"] by (simp add: powr_minus field_simps)
    then have "nat \<lceil>\<bar>log 2 a + 1\<bar>\<rceil> < nat \<lceil>\<bar>log 2 a\<bar>\<rceil>"
      by (simp add: abs_if; linarith)
    then show ?thesis using False a l by simp
  qed
qed

declare binade.simps [simp del]

definition roundHalfEven :: "real \<Rightarrow> int" where
  "roundHalfEven y =
     (let f = \<lfloor>y\<rfloor>; d = y - of_int f
      in if d < 1 / 2 then f else if 1 / 2 < d then f + 1 else if even f then f else f + 1)"

text \<open>
  The double nearest to a real, a tie going to the even significand: 53 significant bits in
  the binade of the real, the spacing of the subnormal numbers below \<open>2^-1022\<close>, and an
  infinity when the result leaves the range of the finite doubles. Every arithmetic
  operation on doubles returns its exact result rounded this way.
\<close>

definition fl :: "real \<Rightarrow> number" where
  "fl x =
     (if x = 0 then Fin 0
      else (let e = max (binade \<bar>x\<bar>) (- 1022);
                ulp = pow2 (e - 52);
                y = of_int (roundHalfEven (x / ulp)) * ulp
            in if 2 ^ 1024 \<le> \<bar>y\<bar> then (if 0 < x then PosInf else NegInf) else Fin y))"

definition isInf :: "number \<Rightarrow> bool" where
  "isInf v = (v = PosInf \<or> v = NegInf)"

definition negative :: "number \<Rightarrow> bool" where
  "negative v = (case v of NegInf \<Rightarrow> True | Fin x \<Rightarrow> x < 0 | _ \<Rightarrow> False)"

text \<open>The operators \<open>*\<close> and \<open>/\<close> on doubles.\<close>

definition js_times :: "number \<Rightarrow> number \<Rightarrow> number" where
  "js_times a b =
     (if a = NaN \<or> b = NaN then NaN
      else if isInf a \<or> isInf b
      then (if a = Fin 0 \<or> b = Fin 0 then NaN
            else if negative a = negative b then PosInf else NegInf)
      else (case (a, b) of (Fin x, Fin y) \<Rightarrow> fl (x * y) | _ \<Rightarrow> NaN))"

definition js_divide :: "number \<Rightarrow> number \<Rightarrow> number" where
  "js_divide a b =
     (if a = NaN \<or> b = NaN then NaN
      else if isInf a
      then (if isInf b then NaN else if negative a = negative b then PosInf else NegInf)
      else if isInf b then Fin 0
      else if b = Fin 0
      then (if a = Fin 0 then NaN else if negative a then NegInf else PosInf)
      else (case (a, b) of (Fin x, Fin y) \<Rightarrow> fl (x / y) | _ \<Rightarrow> NaN))"

text \<open>
  \<open>Math.round\<close>: the nearest integer, a tie upwards; the result is exact. NaN and the
  infinities are returned as they are.
\<close>

definition Math_round :: "number \<Rightarrow> number" where
  "Math_round v = (case v of Fin x \<Rightarrow> Fin (of_int \<lfloor>x + 1 / 2\<rfloor>) | _ \<Rightarrow> v)"

function decimal :: "int \<Rightarrow> string" where
  "decimal n = (if n < 10 then [''0123456789'' ! nat n]
                else decimal (n div 10) @ [''0123456789'' ! nat (n mod 10)])"
  by pat_completeness auto
termination
  by (relation "measure (\<lambda>n. nat n)") auto

declare decimal.simps [simp del]

text \<open>
  \<open>Number::toString\<close> on a double \<open>x \<ge> 10^21\<close>, which is a whole number \<open>N\<close> of \<open>n0\<close> digits: the
  fewest digits \<open>s\<close> such that \<open>s * 10^(n0 - k)\<close> still rounds to \<open>x\<close>, the nearest such \<open>s\<close> when
  there are two, written in exponent form. Seventeen digits always suffice.
\<close>

definition candidate :: "real \<Rightarrow> nat \<Rightarrow> int \<Rightarrow> int option" where
  "candidate x e lo =
     (let hi = lo + 1;
          okLo = (fl (of_int (lo * 10 ^ e)) = Fin x);
          okHi = (fl (of_int (hi * 10 ^ e)) = Fin x);
          dLo = x - of_int (lo * 10 ^ e);
          dHi = of_int (hi * 10 ^ e) - x
      in if okLo \<and> okHi
         then Some (if dLo < dHi then lo else if dHi < dLo then hi else if even lo then lo else hi)
         else if okLo then Some lo
         else if okHi then Some hi
         else None)"

function shortestDigits :: "real \<Rightarrow> int \<Rightarrow> nat \<Rightarrow> nat \<Rightarrow> nat \<times> int" where
  "shortestDigits x N n0 k =
     (let e = n0 - k; lo = N div 10 ^ e
      in if 17 \<le> k then (k, if 2 * (N mod 10 ^ e) < 10 ^ e then lo else lo + 1)
         else (case candidate x e lo of
                 Some s \<Rightarrow> (k, s)
               | None \<Rightarrow> shortestDigits x N n0 (k + 1)))"
  by pat_completeness auto
termination
  by (relation "measure (\<lambda>(x, N, n0, k). 17 - k)") auto

declare shortestDigits.simps [simp del]

definition toStringLarge :: "real \<Rightarrow> string" where
  "toStringLarge x =
     (let N = \<lfloor>x\<rfloor>;
          n0 = length (decimal N);
          (k, s) = shortestDigits x N n0 1
      in if s = 10 ^ k then ''1e+'' @ decimal (int n0)
         else (let d = decimal s
               in if k = 1 then d @ ''e+'' @ decimal (int n0 - 1)
                  else [hd d] @ ''.'' @ tl d @ ''e+'' @ decimal (int n0 - 1)))"

text \<open>
  \<open>Number.prototype.toFixed(f)\<close>: the name of a value that is not finite; otherwise the sign,
  then for a magnitude of \<open>10^21\<close> or more its \<open>toString\<close>, and below that the integer \<open>n\<close>
  with \<open>n / 10^f\<close> nearest to the magnitude (the larger one on a tie), written with \<open>f\<close> digits
  after the point.
\<close>

definition toFixed :: "nat \<Rightarrow> number \<Rightarrow> string" where
  "toFixed f v =
     (case v of
        NaN \<Rightarrow> ''NaN''
      | PosInf \<Rightarrow> ''Infinity''
      | NegInf \<Rightarrow> ''-Infinity''
      | Fin x0 \<Rightarrow>
          (let s = (if x0 < 0 then ''-'' else '''');
               x = \<bar>x0\<bar>;
               m = (if 10 ^ 21 \<le> x then toStringLarge x
                    else (let n = \<lfloor>x * 10 ^ f + 1 / 2\<rfloor>;
                              m0 = (if n = 0 then ''0'' else decimal n)
                          in if f \<noteq> 0
                             then (let k = length m0;
                                       z = (if k \<le> f then replicate (f + 1 - k) CHR ''0'' @ m0
                                            else m0);
                                       k' = (if k \<le> f then f + 1 else k)
                                   in take (k' - f) z @ ''.'' @ drop (k' - f) z)
                             else m0))
           in s @ m))"

section \<open>Trace points and their identity key\<close>

record TracePoint =
  Latitude :: number
  Longitude :: number
  Timestamp :: "string option"

definition COORD_DECIMALS :: nat where
  "COORD_DECIMALS = 6"

text \<open>
  \<open>normalizeCoord\<close>: the product and the quotient are operations on doubles, each rounded;
  \<open>Math.pow(10, 6)\<close> is the double 1000000.
\<close>

definition normalizeCoord :: "number \<Rightarrow> number" where
  "normalizeCoord v =
     (let factor = Fin (10 ^ COORD_DECIMALS)
      in js_divide (Math_round (js_times v factor)) factor)"

definition hashPoint :: "TracePoint \<Rightarrow> string" where
  "hashPoint point =
     toFixed COORD_DECIMALS (Latitude point) @ ''|'' @ toFixed COORD_DECIMALS (Longitude point)
       @ ''|'' @ (case Timestamp point of None \<Rightarrow> '''' | Some t \<Rightarrow> t)"

text \<open>
  \<open>parseTimestamp\<close>: a missing or empty timestamp is 0. The \<open>catch\<close> branch of the source is
  never taken, since neither the \<open>Date\<close> constructor nor its getters throw: an unrecognised
  string gives NaN.
\<close>

definition parseTimestamp :: "date_parser \<Rightarrow> string option \<Rightarrow> jsnum" where
  "parseTimestamp D ts =
     (case ts of
        None \<Rightarrow> Some 0
      | Some s \<Rightarrow> if s = [] then Some 0 else parseIsoToUtc D s)"

section \<open>The trace service\<close>

record TraceState =
  dummyBuffer :: "TracePoint list"
  dummyHashSet :: "string set"
  realtimeBuffer :: "TracePoint list"
  realtimeHashSet :: "string set"
  finalBuffer :: "TracePoint list"

definition initialTrace :: TraceState where
  "initialTrace = \<lparr>dummyBuffer = [], dummyHashSet = {}, realtimeBuffer = [],
     realtimeHashSet = {}, finalBuffer = []\<rparr>"

text \<open>
  The binary search of \<open>insertSorted\<close>. It is entered with \<open>right = buffer.length\<close>, so
  \<open>buffer[mid]\<close> is always inside the buffer.
\<close>

function insertSorted_loop ::
  "date_parser \<Rightarrow> TracePoint list \<Rightarrow> jsnum \<Rightarrow> nat \<Rightarrow> nat \<Rightarrow> nat" where
  "insertSorted_loop D buffer ts left right =
     (if left < right
      then (let mid = (left + right) div 2
            in if js_lt (parseTimestamp D (Timestamp (buffer ! mid))) ts
               then insertSorted_loop D buffer ts (mid + 1) right
               else insertSorted_loop D buffer ts left mid)
      else left)"
  by pat_completeness auto
termination
  by (relation "measure (\<lambda>(D, buffer, ts, left, right). right - left)") auto

declare insertSorted_loop.simps [simp del]

text \<open>\<open>insertSorted\<close> returns the buffer after \<open>splice(left, 0, point)\<close> and the index.\<close>

definition insertSorted :: "date_parser \<Rightarrow> TracePoint list \<Rightarrow> TracePoint \<Rightarrow> TracePoint list \<times> nat" where
  "insertSorted D buffer point =
     (let ts = parseTimestamp D (Timestamp point);
          left = insertSorted_loop D buffer ts 0 (length buffer)
      in (take left buffer @ [point] @ drop left buffer, left))"

fun dedup_loop :: "TracePoint list \<Rightarrow> TracePoint list \<Rightarrow> string set \<Rightarrow> TracePoint list" where
  "dedup_loop [] combined seen = combined"
| "dedup_loop (p # ps) combined seen =
     (let hash = hashPoint p
      in if hash \<notin> seen then dedup_loop ps (combined @ [p]) (insert hash seen)
         else dedup_loop ps combined seen)"

definition rebuildFinalBuffer :: "date_parser \<Rightarrow> TraceState \<Rightarrow> TraceState" where
  "rebuildFinalBuffer D st =
     (let A = dummyBuffer st;
          B_all = realtimeBuffer st;
          B = (if length A = 0 then B_all
               else (let oldestDummyTs = parseTimestamp D (Timestamp (A ! (length A - 1)))
                     in filter (\<lambda>p. js_gt (parseTimestamp D (Timestamp p)) oldestDummyTs) B_all))
      in st\<lparr>finalBuffer := dedup_loop (A @ B) [] {}\<rparr>)"

definition normalizePoint :: "TracePoint \<Rightarrow> TracePoint" where
  "normalizePoint point = \<lparr>Latitude = normalizeCoord (Latitude point),
     Longitude = normalizeCoord (Longitude point), Timestamp = Timestamp point\<rparr>"

definition addToDummy :: "date_parser \<Rightarrow> TraceState \<Rightarrow> TracePoint \<Rightarrow> TraceState" where
  "addToDummy D st point0 =
     (let point = normalizePoint point0;
          hash = hashPoint point
      in if hash \<in> dummyHashSet st then st
         else rebuildFinalBuffer D
                (st\<lparr>dummyBuffer := fst (insertSorted D (dummyBuffer st) point),
                    dummyHashSet := insert hash (dummyHashSet st)\<rparr>))"

definition addToRealtime :: "date_parser \<Rightarrow> TraceState \<Rightarrow> TracePoint \<Rightarrow> TraceState" where
  "addToRealtime D st point0 =
     (let point = normalizePoint point0;
          hash = hashPoint point
      in if hash \<in> realtimeHashSet st then st
         else rebuildFinalBuffer D
                (st\<lparr>realtimeBuffer := fst (insertSorted D (realtimeBuffer st) point),
                    realtimeHashSet := insert hash (realtimeHashSet st)\<rparr>))"

definition getTrace :: "TraceState \<Rightarrow> TracePoint list" where
  "getTrace st = finalBuffer st"

definition clearTrace :: "TraceState \<Rightarrow> TraceState" where
  "clearTrace st = st\<lparr>dummyBuffer := [], dummyHashSet := {}, realtimeBuffer := [],
     realtimeHashSet := {}, finalBuffer := []\<rparr>"

subsection \<open>The two subscriptions of the constructor\<close>

text \<open>
  An element of a history answer, or a live reading, as it arrives: either field may be
  missing or of another type than number (\<open>None\<close>), and the element itself may be null
  (\<open>None\<close>).
\<close>

record RawPoint =
  rawLatitude :: "number option"
  rawLongitude :: "number option"
  rawTimestamp :: "string option"

datatype RequestAction = get_history | get_history_bounds | get_devices | get_device_status | ping

text \<open>A response message; \<open>data = None\<close> stands for a payload that is missing or not an array.\<close>

record ResponseMessage =
  action :: RequestAction
  data :: "RawPoint option list option"

definition gpsSub :: "date_parser \<Rightarrow> TraceState \<Rightarrow> RawPoint option \<Rightarrow> TraceState" where
  "gpsSub D st msg =
     (case msg of
        None \<Rightarrow> st
      | Some d \<Rightarrow>
          (case (rawLatitude d, rawLongitude d) of
             (Some la, Some lo) \<Rightarrow>
               addToRealtime D st \<lparr>Latitude = la, Longitude = lo, Timestamp = rawTimestamp d\<rparr>
           | _ \<Rightarrow> st))"

fun historySub_loop :: "date_parser \<Rightarrow> TraceState \<Rightarrow> RawPoint option list \<Rightarrow> TraceState" where
  "historySub_loop D st [] = st"
| "historySub_loop D st (None # ps) = historySub_loop D st ps"
| "historySub_loop D st (Some p # ps) =
     (case (rawLatitude p, rawLongitude p) of
        (Some la, Some lo) \<Rightarrow>
          historySub_loop D
            (addToDummy D st \<lparr>Latitude = la, Longitude = lo, Timestamp = rawTimestamp p\<rparr>) ps
      | _ \<Rightarrow> historySub_loop D st ps)"

definition historySub :: "date_parser \<Rightarrow> TraceState \<Rightarrow> ResponseMessage option \<Rightarrow> TraceState" where
  "historySub D st msg =
     (case msg of
        None \<Rightarrow> st
      | Some m \<Rightarrow>
          if action m \<noteq> get_history then st
          else (case data m of
                  None \<Rightarrow> st
                | Some ps \<Rightarrow> historySub_loop D (st\<lparr>dummyBuffer := [], dummyHashSet := {}\<rparr>) ps))"

text \<open>
  What happens to the service from outside: a message on the live channel, a message on the
  answer channel, a call of \<open>clearTrace\<close>.
\<close>

datatype TraceEvent =
    LiveMessage "RawPoint option"
  | ResponseArrives "ResponseMessage option"
  | ClearTrace

fun traceStep :: "date_parser \<Rightarrow> TraceState \<Rightarrow> TraceEvent \<Rightarrow> TraceState" where
  "traceStep D st (LiveMessage msg) = gpsSub D st msg"
| "traceStep D st (ResponseArrives msg) = historySub D st msg"
| "traceStep D st ClearTrace = clearTrace st"

definition traceRun :: "date_parser \<Rightarrow> TraceEvent list \<Rightarrow> TraceState" where
  "traceRun D evs = foldl (traceStep D) initialTrace evs"

text \<open>
  The merged sequence in the words of the specification: the historical points, then the live
  points strictly later than the last historical point (all live points when there is no
  historical point), keeping the first occurrence of every identity key.
\<close>

fun dedupFirst :: "string set \<Rightarrow> TracePoint list \<Rightarrow> TracePoint list" where
  "dedupFirst seen [] = []"
| "dedupFirst seen (p # ps) =
     (if hashPoint p \<in> seen then dedupFirst seen ps
      else p # dedupFirst (insert (hashPoint p) seen) ps)"

definition specMerged :: "date_parser \<Rightarrow> TracePoint list \<Rightarrow> TracePoint list \<Rightarrow> TracePoint list" where
  "specMerged D H L =
     (if H = [] then dedupFirst {} L
      else dedupFirst {}
             (H @ filter (\<lambda>p. js_gt (parseTimestamp D (Timestamp p))
                                   (parseTimestamp D (Timestamp (last H)))) L))"

text \<open>
  A sequence is in ascending order of parsed timestamps when no point is strictly earlier
  than a point before it. A timestamp that parses to NaN is thereby in order with anything.
\<close>

definition ascendingByTimestamp :: "date_parser \<Rightarrow> TracePoint list \<Rightarrow> bool" where
  "ascendingByTimestamp D xs =
     sorted_wrt (\<lambda>p q. \<not> js_lt (parseTimestamp D (Timestamp q)) (parseTimestamp D (Timestamp p))) xs"

text \<open>A timestamp is missing when it is null or empty, unparseable when the date is invalid.\<close>

definition missingOrUnparseable :: "date_parser \<Rightarrow> string option \<Rightarrow> bool" where
  "missingOrUnparseable D ts = (case ts of None \<Rightarrow> True | Some s \<Rightarrow> s = [] \<or> D s = None)"

text \<open>The merged buffer agrees with the historical and live buffers it was derived from.\<close>

definition mergedInvariant :: "date_parser \<Rightarrow> TraceState \<Rightarrow> bool" where
  "mergedInvariant D st = (getTrace st = specMerged D (dummyBuffer st) (realtimeBuffer st))"

text \<open>
  The trace point that the history subscription builds from an element of the answer, if
  the element passes its checks.
\<close>

definition acceptedPoint :: "RawPoint option \<Rightarrow> TracePoint option" where
  "acceptedPoint r =
     (case r of
        None \<Rightarrow> None
      | Some p \<Rightarrow>
          (case (rawLatitude p, rawLongitude p) of
             (Some la, Some lo) \<Rightarrow> Some \<lparr>Latitude = la, Longitude = lo, Timestamp = rawTimestamp p\<rparr>
           | _ \<Rightarrow> None))"

text \<open>A history answer that carries an array without any accepted element.\<close>

definition historyWithoutPoint :: "TraceEvent \<Rightarrow> bool" where
  "historyWithoutPoint ev =
     (case ev of
        ResponseArrives (Some m) \<Rightarrow>
          action m = get_history
          \<and> (case data m of None \<Rightarrow> False | Some ps \<Rightarrow> list_all (\<lambda>r. acceptedPoint r = None) ps)
      | _ \<Rightarrow> False)"

text \<open>Every timestamp of the sequence parses to a number.\<close>

definition numericTimestamps :: "date_parser \<Rightarrow> TracePoint list \<Rightarrow> bool" where
  "numericTimestamps D xs = list_all (\<lambda>p. parseTimestamp D (Timestamp p) \<noteq> None) xs"

text \<open>A raw reading at latitude 1, longitude 2, used in the examples.\<close>

definition reading :: "string option \<Rightarrow> RawPoint option" where
  "reading ts =
     Some \<lparr>rawLatitude = Some (Fin 1), rawLongitude = Some (Fin 2), rawTimestamp = ts\<rparr>"

definition tracePoint :: "string option \<Rightarrow> TracePoint" where
  "tracePoint ts = \<lparr>Latitude = Fin 1, Longitude = Fin 2, Timestamp = ts\<rparr>"

definition historyAnswer :: "RawPoint option list \<Rightarrow> ResponseMessage option" where
  "historyAnswer ps = Some \<lparr>action = get_history, data = Some ps\<rparr>"

definition live :: "string option \<Rightarrow> TraceEvent" where
  "live ts = LiveMessage (reading ts)"

definition history :: "string option list \<Rightarrow> TraceEvent" where
  "history tss = ResponseArrives (historyAnswer (map reading tss))"

section \<open>The WebSocket base service\<close>

text \<open>
  The service builds one observable pipeline per call of \<open>connect\<close>:
  \<open>socket$ | retry | tap | share | finalize\<close>, subscribed once. The model keeps the state of
  the service and, for every pipeline, the state of its \<open>retry\<close> operator. The operators
  behave as the RxJS library documents and implements them:
  \<^item> \<open>webSocket(url)\<close> opens the transport when it is subscribed; it emits the messages,
    signals an error when the transport fails or closes uncleanly, and completes on a clean
    closure;
  \<^item> \<open>retry({count, delay})\<close> keeps a counter \<open>soFar\<close>, initially 0. On an error of the source
    it tests \<open>soFar++ < count\<close>; if so it calls \<open>delay(error, soFar)\<close> with the incremented
    counter, waits for the returned timer and subscribes to the source again; otherwise it
    passes the error on. The counter is not reset by a value (\<open>resetOnSuccess\<close> is false by
    default). Values and completion pass through;
  \<^item> \<open>tap(f)\<close> calls \<open>f\<close> on every value;
  \<^item> \<open>finalize(f)\<close> calls \<open>f\<close> when the pipeline ends, after the subscriber has been told
    of the error or completion.
  The subscription returned by \<open>subscribe\<close> is not kept by the service, so nothing ever
  unsubscribes a pipeline.
\<close>

datatype ConnectionStatus = Connecting | Connected | Disconnected

datatype Phase = Subscribed | Delaying | Terminated

record Pipeline =
  attempt :: nat
  soFar :: nat
  phase :: Phase

datatype LogEntry =
    LogInitializing
  | WarnRetry nat nat
  | WarnClosedUnexpectedly
  | LogClosedIntentionally
  | ErrorMaximumAttempts
  | ErrorFatal
  | WarnSendNotConnected

text \<open>
  \<open>socket\<close> is \<open>socket$\<close> (the index of the pipeline it belongs to, \<open>None\<close> for null);
  \<open>statusLog\<close> lists the values emitted by \<open>connectionStatus$\<close>, the current one last;
  \<open>latestMessage\<close> is the value held by \<open>latestMessage$\<close>; \<open>timers\<close> lists the delays of
  the timers started by \<open>retry\<close>; \<open>subscriptions\<close> counts how often a pipeline subscribed to
  its socket, which is the number of connection attempts made; \<open>sent\<close> lists the messages
  handed to \<open>socket$.next\<close>.
\<close>

record ('i, 'o) WebSocketBase =
  socket :: "nat option"
  messages :: "'i list"
  latestMessage :: "'i option"
  statusLog :: "ConnectionStatus list"
  isClosed :: bool
  pipelines :: "Pipeline list"
  timers :: "nat list"
  subscriptions :: nat
  sent :: "'o list"
  console :: "LogEntry list"

definition reconnectInterval :: nat where
  "reconnectInterval = 5000"

definition maxReconnectInterval :: nat where
  "maxReconnectInterval = 60000"

definition maxRetries :: nat where
  "maxRetries = 50"

definition newService :: "('i, 'o) WebSocketBase" where
  "newService = \<lparr>socket = None, messages = [], latestMessage = None, statusLog = [Connecting],
     isClosed = False, pipelines = [], timers = [], subscriptions = 0, sent = [], console = []\<rparr>"

definition connectionStatus :: "('i, 'o) WebSocketBase \<Rightarrow> ConnectionStatus" where
  "connectionStatus s = last (statusLog s)"

definition emitStatus :: "ConnectionStatus \<Rightarrow> ('i, 'o) WebSocketBase \<Rightarrow> ('i, 'o) WebSocketBase" where
  "emitStatus v s = s\<lparr>statusLog := statusLog s @ [v]\<rparr>"

definition logLine :: "LogEntry \<Rightarrow> ('i, 'o) WebSocketBase \<Rightarrow> ('i, 'o) WebSocketBase" where
  "logLine e s = s\<lparr>console := console s @ [e]\<rparr>"

text \<open>The value a subscriber of \<open>onMessage()\<close> receives at once when it subscribes.\<close>

definition onMessage :: "('i, 'o) WebSocketBase \<Rightarrow> 'i option" where
  "onMessage s = latestMessage s"

text \<open>
  \<open>GpsService.onGPS\<close>, \<open>ResponseService.onResponse\<close> and \<open>LogService.onLog\<close> return the same
  observable of the service they extend.
\<close>

definition onGPS :: "('i, 'o) WebSocketBase \<Rightarrow> 'i option" where
  "onGPS s = latestMessage s"

definition onResponse :: "('i, 'o) WebSocketBase \<Rightarrow> 'i option" where
  "onResponse s = latestMessage s"

definition onLog :: "('i, 'o) WebSocketBase \<Rightarrow> 'i option" where
  "onLog s = latestMessage s"

text \<open>The delay callback given to \<open>retry\<close>.\<close>

definition retryDelay :: "nat \<Rightarrow> nat" where
  "retryDelay retryCount = min (reconnectInterval * 2 ^ retryCount) maxReconnectInterval"

text \<open>\<open>connect(attempt)\<close>, up to and including the subscription of the new pipeline.\<close>

definition connect :: "nat \<Rightarrow> ('i, 'o) WebSocketBase \<Rightarrow> ('i, 'o) WebSocketBase" where
  "connect a s0 =
     (let s = emitStatus Connecting (s0\<lparr>isClosed := False\<rparr>)
      in s\<lparr>socket := Some (length (pipelines s)),
           pipelines := pipelines s @ [\<lparr>attempt = a, soFar = 0, phase = Subscribed\<rparr>],
           subscriptions := subscriptions s + 1\<rparr>)"

definition initialize :: "('i, 'o) WebSocketBase \<Rightarrow> ('i, 'o) WebSocketBase" where
  "initialize s = connect 0 (logLine LogInitializing s)"

text \<open>The callback given to \<open>finalize\<close>, in the pipeline built by \<open>connect(a)\<close>.\<close>

definition finalizeCallback :: "nat \<Rightarrow> ('i, 'o) WebSocketBase \<Rightarrow> ('i, 'o) WebSocketBase" where
  "finalizeCallback a s0 =
     (let s = s0\<lparr>socket := None\<rparr>
      in if \<not> isClosed s \<and> a < maxRetries
         then connect (a + 1) (logLine WarnClosedUnexpectedly (emitStatus Disconnected s))
         else if isClosed s then logLine LogClosedIntentionally s
         else emitStatus Disconnected (logLine ErrorMaximumAttempts s))"

text \<open>The \<open>next\<close> and \<open>error\<close> handlers given to \<open>subscribe\<close>.\<close>

definition subscriberNext :: "'i \<Rightarrow> ('i, 'o) WebSocketBase \<Rightarrow> ('i, 'o) WebSocketBase" where
  "subscriberNext msg s = s\<lparr>messages := messages s @ [msg], latestMessage := Some msg\<rparr>"

definition subscriberError :: "('i, 'o) WebSocketBase \<Rightarrow> ('i, 'o) WebSocketBase" where
  "subscriberError s = logLine ErrorFatal (emitStatus Disconnected s)"

definition setPipeline :: "nat \<Rightarrow> Pipeline \<Rightarrow> ('i, 'o) WebSocketBase \<Rightarrow> ('i, 'o) WebSocketBase" where
  "setPipeline i p s = s\<lparr>pipelines := (pipelines s)[i := p]\<rparr>"

text \<open>The socket of pipeline \<open>i\<close> emits a message: \<open>retry\<close> passes it, \<open>tap\<close> sets the status.\<close>

definition socketNext :: "nat \<Rightarrow> 'i \<Rightarrow> ('i, 'o) WebSocketBase \<Rightarrow> ('i, 'o) WebSocketBase" where
  "socketNext i msg s =
     (if i < length (pipelines s) \<and> phase (pipelines s ! i) = Subscribed
      then subscriberNext msg (emitStatus Connected s)
      else s)"

text \<open>The socket of pipeline \<open>i\<close> signals an error: \<open>retry\<close> decides.\<close>

definition socketError :: "nat \<Rightarrow> ('i, 'o) WebSocketBase \<Rightarrow> ('i, 'o) WebSocketBase" where
  "socketError i s =
     (if i < length (pipelines s) \<and> phase (pipelines s ! i) = Subscribed
      then (let p = pipelines s ! i
            in if soFar p < maxRetries
               then (let retryCount = soFar p + 1;
                         delay = retryDelay retryCount
                     in setPipeline i (p\<lparr>soFar := retryCount, phase := Delaying\<rparr>)
                          (logLine (WarnRetry retryCount delay) (s\<lparr>timers := timers s @ [delay]\<rparr>)))
               else finalizeCallback (attempt p)
                      (subscriberError
                         (setPipeline i (p\<lparr>soFar := soFar p + 1, phase := Terminated\<rparr>) s)))
      else s)"

text \<open>The socket of pipeline \<open>i\<close> completes: the pipeline ends.\<close>

definition socketComplete :: "nat \<Rightarrow> ('i, 'o) WebSocketBase \<Rightarrow> ('i, 'o) WebSocketBase" where
  "socketComplete i s =
     (if i < length (pipelines s) \<and> phase (pipelines s ! i) = Subscribed
      then (let p = pipelines s ! i
            in finalizeCallback (attempt p) (setPipeline i (p\<lparr>phase := Terminated\<rparr>) s))
      else s)"

text \<open>The timer of pipeline \<open>i\<close> fires: \<open>retry\<close> subscribes to the socket again.\<close>

definition timerFires :: "nat \<Rightarrow> ('i, 'o) WebSocketBase \<Rightarrow> ('i, 'o) WebSocketBase" where
  "timerFires i s =
     (if i < length (pipelines s) \<and> phase (pipelines s ! i) = Delaying
      then (setPipeline i ((pipelines s ! i)\<lparr>phase := Subscribed\<rparr>) s)
             \<lparr>subscriptions := subscriptions s + 1\<rparr>
      else s)"

definition sendMessage :: "('i, 'o) WebSocketBase \<Rightarrow> 'o \<Rightarrow> bool \<times> ('i, 'o) WebSocketBase" where
  "sendMessage s msg =
     (if socket s \<noteq> None then (True, s\<lparr>sent := sent s @ [msg]\<rparr>)
      else (False, logLine WarnSendNotConnected s))"

text \<open>
  \<open>close()\<close>. Completing \<open>socket$\<close> asks the transport to close; the pipeline hears of it
  through a later completion or error of its socket.
\<close>

definition close :: "('i, 'o) WebSocketBase \<Rightarrow> ('i, 'o) WebSocketBase" where
  "close s = (emitStatus Disconnected (s\<lparr>isClosed := True\<rparr>))\<lparr>socket := None\<rparr>"

datatype ('i, 'o) Event =
    Initialize
  | Close
  | SendMessage 'o
  | SocketNext nat 'i
  | SocketError nat
  | SocketComplete nat
  | TimerFires nat

fun step :: "('i, 'o) WebSocketBase \<Rightarrow> ('i, 'o) Event \<Rightarrow> ('i, 'o) WebSocketBase" where
  "step s Initialize = initialize s"
| "step s Close = close s"
| "step s (SendMessage msg) = snd (sendMessage s msg)"
| "step s (SocketNext i msg) = socketNext i msg s"
| "step s (SocketError i) = socketError i s"
| "step s (SocketComplete i) = socketComplete i s"
| "step s (TimerFires i) = timerFires i s"

definition run :: "('i, 'o) WebSocketBase \<Rightarrow> ('i, 'o) Event list \<Rightarrow> ('i, 'o) WebSocketBase" where
  "run s evs = foldl step s evs"

fun isSocketNext :: "('i, 'o) Event \<Rightarrow> bool" where
  "isSocketNext (SocketNext i msg) = True"
| "isSocketNext _ = False"

section \<open>Properties of the trace service\<close>

subsection \<open>The merged buffer\<close>

lemma dedup_loop_dedupFirst: "dedup_loop ps combined seen = combined @ dedupFirst seen ps"
  by (induction ps arbitrary: combined seen) (simp_all add: Let_def)

lemma set_dedupFirst: "set (dedupFirst seen ps) \<subseteq> set ps"
  by (induction ps arbitrary: seen) auto

lemma rebuildFinalBuffer_specMerged:
  "finalBuffer (rebuildFinalBuffer D st) = specMerged D (dummyBuffer st) (realtimeBuffer st)"
  by (simp add: rebuildFinalBuffer_def specMerged_def dedup_loop_dedupFirst Let_def last_conv_nth)

lemma rebuildFinalBuffer_fields:
  "dummyBuffer (rebuildFinalBuffer D st) = dummyBuffer st"
  "dummyHashSet (rebuildFinalBuffer D st) = dummyHashSet st"
  "realtimeBuffer (rebuildFinalBuffer D st) = realtimeBuffer st"
  "realtimeHashSet (rebuildFinalBuffer D st) = realtimeHashSet st"
  by (simp_all add: rebuildFinalBuffer_def Let_def)

text \<open>
  Every rebuild establishes the merge of the specification, and the two insertions keep it.
  A history answer with at least one accepted element establishes it whatever the state
  before.
\<close>

lemma mergedInvariant_rebuild: "mergedInvariant D (rebuildFinalBuffer D st)"
  by (simp add: mergedInvariant_def getTrace_def rebuildFinalBuffer_specMerged rebuildFinalBuffer_fields)

lemma mergedInvariant_addToRealtime:
  "mergedInvariant D st \<Longrightarrow> mergedInvariant D (addToRealtime D st p)"
  by (simp add: addToRealtime_def Let_def mergedInvariant_rebuild)

lemma mergedInvariant_addToDummy:
  "mergedInvariant D st \<Longrightarrow> mergedInvariant D (addToDummy D st p)"
  by (simp add: addToDummy_def Let_def mergedInvariant_rebuild)

lemma mergedInvariant_addToDummy_new:
  "hashPoint (normalizePoint p) \<notin> dummyHashSet st \<Longrightarrow> mergedInvariant D (addToDummy D st p)"
  by (simp add: addToDummy_def Let_def mergedInvariant_rebuild)

lemma mergedInvariant_gpsSub:
  "mergedInvariant D st \<Longrightarrow> mergedInvariant D (gpsSub D st msg)"
  by (simp add: gpsSub_def mergedInvariant_addToRealtime split: option.splits)

lemma mergedInvariant_clearTrace: "mergedInvariant D (clearTrace st)"
  by (simp add: mergedInvariant_def clearTrace_def getTrace_def specMerged_def)

lemma mergedInvariant_initialTrace: "mergedInvariant D initialTrace"
  by (simp add: mergedInvariant_def initialTrace_def getTrace_def specMerged_def)

lemma historySub_loop_Cons:
  "historySub_loop D st (r # ps) =
     (case acceptedPoint r of
        None \<Rightarrow> historySub_loop D st ps
      | Some q \<Rightarrow> historySub_loop D (addToDummy D st q) ps)"
  by (cases r) (auto simp add: acceptedPoint_def split: option.splits)

lemma mergedInvariant_historySub_loop:
  "mergedInvariant D st \<Longrightarrow> mergedInvariant D (historySub_loop D st ps)"
proof (induction ps arbitrary: st)
  case Nil
  then show ?case by simp
next
  case (Cons r ps)
  show ?case
  proof (cases "acceptedPoint r")
    case None
    then show ?thesis using Cons by (simp only: historySub_loop_Cons option.case)
  next
    case (Some q)
    then show ?thesis
      using Cons.IH [OF mergedInvariant_addToDummy [OF Cons.prems]]
      by (simp only: historySub_loop_Cons option.case)
  qed
qed

lemma mergedInvariant_historySub_loop_new:
  "dummyHashSet st = {} \<Longrightarrow> \<exists>r \<in> set ps. acceptedPoint r \<noteq> None \<Longrightarrow>
   mergedInvariant D (historySub_loop D st ps)"
proof (induction ps arbitrary: st)
  case Nil
  then show ?case by simp
next
  case (Cons r ps)
  show ?case
  proof (cases "acceptedPoint r")
    case None
    with Cons.prems(2) have "\<exists>r \<in> set ps. acceptedPoint r \<noteq> None" by auto
    from Cons.IH [OF Cons.prems(1) this] show ?thesis
      using None by (simp only: historySub_loop_Cons option.case)
  next
    case (Some q)
    have "mergedInvariant D (addToDummy D st q)"
      by (rule mergedInvariant_addToDummy_new) (simp add: Cons.prems(1))
    then have "mergedInvariant D (historySub_loop D (addToDummy D st q) ps)"
      by (rule mergedInvariant_historySub_loop)
    then show ?thesis
      using Some by (simp only: historySub_loop_Cons option.case)
  qed
qed

lemma mergedInvariant_historySub:
  "\<exists>r \<in> set ps. acceptedPoint r \<noteq> None \<Longrightarrow>
   mergedInvariant D (historySub D st (historyAnswer ps))"
  by (simp add: historySub_def historyAnswer_def mergedInvariant_historySub_loop_new)

text \<open>
  So the merged buffer agrees with H and L in every state reached without a history answer
  that carries no accepted element.
\<close>

lemma mergedInvariant_traceStep:
  assumes "mergedInvariant D st" "\<not> historyWithoutPoint ev"
  shows "mergedInvariant D (traceStep D st ev)"
proof (cases ev)
  case (LiveMessage msg)
  then show ?thesis using assms(1) by (simp add: mergedInvariant_gpsSub)
next
  case (ResponseArrives msg)
  show ?thesis
  proof (cases msg)
    case None
    then show ?thesis using ResponseArrives assms(1) by (simp add: historySub_def)
  next
    case (Some m)
    show ?thesis
    proof (cases "action m = get_history \<and> data m \<noteq> None")
      case True
      then obtain ps where ps: "data m = Some ps" by auto
      have "\<exists>r \<in> set ps. acceptedPoint r \<noteq> None"
        using assms(2) ResponseArrives Some True ps
        by (auto simp add: historyWithoutPoint_def list_all_iff)
      then have "mergedInvariant D
          (historySub_loop D (st\<lparr>dummyBuffer := [], dummyHashSet := {}\<rparr>) ps)"
        by (intro mergedInvariant_historySub_loop_new) simp_all
      then show ?thesis using ResponseArrives Some True ps by (simp add: historySub_def)
    next
      case False
      then show ?thesis
        using ResponseArrives Some assms(1) by (auto simp add: historySub_def)
    qed
  qed
next
  case ClearTrace
  then show ?thesis by (simp add: mergedInvariant_clearTrace)
qed

lemma mergedInvariant_foldl:
  assumes "mergedInvariant D st" "\<forall>ev \<in> set evs. \<not> historyWithoutPoint ev"
  shows "mergedInvariant D (foldl (traceStep D) st evs)"
  using assms
  by (induction evs arbitrary: st) (simp_all add: mergedInvariant_traceStep)

lemma mergedInvariant_traceRun:
  "\<forall>ev \<in> set evs. \<not> historyWithoutPoint ev \<Longrightarrow> mergedInvariant D (traceRun D evs)"
  unfolding traceRun_def
  by (rule mergedInvariant_foldl [OF mergedInvariant_initialTrace])

text \<open>
  The historical buffer and its hash set after a history answer depend on the answer only,
  not on what they held before.
\<close>

lemma addToDummy_dummy_only:
  assumes "dummyBuffer st = dummyBuffer st'" "dummyHashSet st = dummyHashSet st'"
  shows "dummyBuffer (addToDummy D st p) = dummyBuffer (addToDummy D st' p)
    \<and> dummyHashSet (addToDummy D st p) = dummyHashSet (addToDummy D st' p)"
  using assms by (simp add: addToDummy_def Let_def rebuildFinalBuffer_fields)

lemma historySub_loop_dummy_only:
  assumes "dummyBuffer st = dummyBuffer st'" "dummyHashSet st = dummyHashSet st'"
  shows "dummyBuffer (historySub_loop D st ps) = dummyBuffer (historySub_loop D st' ps)
    \<and> dummyHashSet (historySub_loop D st ps) = dummyHashSet (historySub_loop D st' ps)"
  using assms
proof (induction ps arbitrary: st st')
  case Nil
  then show ?case by simp
next
  case (Cons r ps)
  show ?case
  proof (cases "acceptedPoint r")
    case None
    then show ?thesis using Cons.IH [OF Cons.prems] by (simp only: historySub_loop_Cons option.case)
  next
    case (Some q)
    have "dummyBuffer (addToDummy D st q) = dummyBuffer (addToDummy D st' q)"
      "dummyHashSet (addToDummy D st q) = dummyHashSet (addToDummy D st' q)"
      using addToDummy_dummy_only [OF Cons.prems] by simp_all
    from Cons.IH [OF this] show ?thesis
      using Some by (simp only: historySub_loop_Cons option.case)
  qed
qed

lemma historySub_rebuilds_from_scratch:
  "dummyBuffer (historySub D st (historyAnswer ps))
     = dummyBuffer (historySub D initialTrace (historyAnswer ps))
   \<and> dummyHashSet (historySub D st (historyAnswer ps))
     = dummyHashSet (historySub D initialTrace (historyAnswer ps))"
proof -
  have "dummyBuffer (st\<lparr>dummyBuffer := [], dummyHashSet := {}\<rparr>)
      = dummyBuffer (initialTrace\<lparr>dummyBuffer := [], dummyHashSet := {}\<rparr>)"
    "dummyHashSet (st\<lparr>dummyBuffer := [], dummyHashSet := {}\<rparr>)
      = dummyHashSet (initialTrace\<lparr>dummyBuffer := [], dummyHashSet := {}\<rparr>)"
    by simp_all
  from historySub_loop_dummy_only [OF this] show ?thesis
    by (simp add: historySub_def historyAnswer_def)
qed

subsection \<open>Evaluation of the examples\<close>

lemma parse_examples:
  "parseTimestamp isoDateTime (Some ''1970-01-01T00:00:05Z'') = Some 5000"
  "parseTimestamp isoDateTime (Some ''1970-01-01T00:00:10Z'') = Some 10000"
  "parseTimestamp isoDateTime (Some ''1970-01-01T00:00:15Z'') = Some 15000"
  "parseTimestamp isoDateTime (Some ''1970-01-01T00:00:20Z'') = Some 20000"
  "parseTimestamp isoDateTime (Some ''1970-01-01T00:00:25Z'') = Some 25000"
  "parseTimestamp isoDateTime (Some ''1969-12-31T23:59:50Z'') = Some (- 10000)"
  "parseTimestamp isoDateTime (Some ''garbage'') = None"
  "parseTimestamp isoDateTime None = Some 0"
  by code_simp+

lemmas number_eval = normalizeCoord_def COORD_DECIMALS_def js_times_def js_divide_def
  Math_round_def isInf_def fl_def binade.simps pow2_def roundHalfEven_def

lemma normalizeCoord_examples:
  "normalizeCoord (Fin 1) = Fin 1" "normalizeCoord (Fin 2) = Fin 2"
  by (simp_all add: number_eval)

text \<open>
  The doubles written 4.7110125, 4.711013 and 4.711012, and 0.0000005 and 0.000001. The
  product of the double 4.7110125 and 1000000 is rounded to 4711012.5, so the coordinate is
  normalized to 4.711013 although the double itself lies below 4.7110125.
\<close>

lemma normalizeCoord_rounds_the_product:
  "normalizeCoord (Fin (5304128534884437 / 1125899906842624))
     = Fin (5304129097834391 / 1125899906842624)"
  "normalizeCoord (Fin (5304129097834391 / 1125899906842624))
     = Fin (5304129097834391 / 1125899906842624)"
  "normalizeCoord (Fin (1326031992983621 / 281474976710656))
     = Fin (1326031992983621 / 281474976710656)"
  "normalizeCoord (Fin (4722366482869645 / 9444732965739290427392))
     = Fin (4722366482869645 / 4722366482869645213696)"
  by (simp_all add: number_eval)

lemma decimal_examples:
  "decimal 1000000 = ''1000000''" "decimal 2000000 = ''2000000''"
  "decimal 4711013 = ''4711013''"
  by (simp_all add: decimal.simps)

lemma toFixed_examples:
  "toFixed 6 (Fin 1) = ''1.000000''" "toFixed 6 (Fin 2) = ''2.000000''"
  "toFixed 6 (Fin (5304129097834391 / 1125899906842624)) = ''4.711013''"
  by (simp_all add: toFixed_def decimal_examples)

lemma hashPoint_example:
  "hashPoint \<lparr>Latitude = Fin 1, Longitude = Fin 2, Timestamp = ts\<rparr>
     = ''1.000000|2.000000|'' @ (case ts of None \<Rightarrow> '''' | Some t \<Rightarrow> t)"
  by (simp add: hashPoint_def COORD_DECIMALS_def toFixed_examples)

lemmas trace_eval = traceRun_def live_def history_def gpsSub_def historySub_def
  addToRealtime_def addToDummy_def normalizePoint_def insertSorted_def insertSorted_loop.simps
  rebuildFinalBuffer_def js_lt_def js_gt_def Let_def reading_def tracePoint_def
  historyAnswer_def initialTrace_def getTrace_def specMerged_def
  normalizeCoord_examples hashPoint_example parse_examples

text \<open>The example of the specification: H at 10 and 20, L at 5, 15 and 25 merge to 10, 20, 25.\<close>

lemma merge_example:
  "getTrace (traceRun isoDateTime
     [history [Some ''1970-01-01T00:00:10Z'', Some ''1970-01-01T00:00:20Z''],
      live (Some ''1970-01-01T00:00:05Z''), live (Some ''1970-01-01T00:00:15Z''),
      live (Some ''1970-01-01T00:00:25Z'')])
   = [tracePoint (Some ''1970-01-01T00:00:10Z''), tracePoint (Some ''1970-01-01T00:00:20Z''),
      tracePoint (Some ''1970-01-01T00:00:25Z'')]"
  by (simp add: trace_eval)

text \<open>
  C1 at its failing input. A live point at 25 s arrives, then a history answer with points
  at 10 s and 20 s, then a history answer with no point. The subscription empties the
  historical buffer and returns without a rebuild, so \<open>getTrace()\<close> still shows the points
  at 10 s and 20 s, while the merge of the empty H with L is the live point alone.
\<close>

theorem C1_stale_merge_after_empty_history:
  "dummyBuffer (traceRun isoDateTime
     [live (Some ''1970-01-01T00:00:25Z''),
      history [Some ''1970-01-01T00:00:10Z'', Some ''1970-01-01T00:00:20Z''],
      history []]) = []
   \<and> realtimeBuffer (traceRun isoDateTime
     [live (Some ''1970-01-01T00:00:25Z''),
      history [Some ''1970-01-01T00:00:10Z'', Some ''1970-01-01T00:00:20Z''],
      history []]) = [tracePoint (Some ''1970-01-01T00:00:25Z'')]
   \<and> getTrace (traceRun isoDateTime
     [live (Some ''1970-01-01T00:00:25Z''),
      history [Some ''1970-01-01T00:00:10Z'', Some ''1970-01-01T00:00:20Z''],
      history []])
     = [tracePoint (Some ''1970-01-01T00:00:10Z''), tracePoint (Some ''1970-01-01T00:00:20Z''),
        tracePoint (Some ''1970-01-01T00:00:25Z'')]
   \<and> specMerged isoDateTime [] [tracePoint (Some ''1970-01-01T00:00:25Z'')]
     = [tracePoint (Some ''1970-01-01T00:00:25Z'')]"
  by (simp add: trace_eval)

text \<open>
  C6 at its failing input. A history answer with one point at 10 s is followed by a
  history answer with no point, which shares no identity key with the first. The
  historical buffer and its hash set are emptied, but the merged buffer is not rebuilt:
  the point of the first answer is still in \<open>getTrace()\<close>.
\<close>

theorem C6_first_batch_survives_empty_second_batch:
  "dummyBuffer (traceRun isoDateTime [history [Some ''1970-01-01T00:00:10Z''], history []]) = []
   \<and> dummyHashSet (traceRun isoDateTime [history [Some ''1970-01-01T00:00:10Z''], history []])
     = {}
   \<and> getTrace (traceRun isoDateTime [history [Some ''1970-01-01T00:00:10Z''], history []])
     = [tracePoint (Some ''1970-01-01T00:00:10Z'')]"
  by (simp add: trace_eval)

subsection \<open>Idempotence of the live insertion\<close>

lemma hashPoint_normalizePoint_cong:
  assumes "normalizeCoord (Latitude p) = normalizeCoord (Latitude q)"
    and "normalizeCoord (Longitude p) = normalizeCoord (Longitude q)"
    and "(case Timestamp p of None \<Rightarrow> '''' | Some t \<Rightarrow> t) = (case Timestamp q of None \<Rightarrow> '''' | Some t \<Rightarrow> t)"
  shows "hashPoint (normalizePoint p) = hashPoint (normalizePoint q)"
  using assms by (simp add: hashPoint_def normalizePoint_def)

text \<open>
  C5. If two points have the same normalized latitude, the same normalized longitude and
  the same timestamp-or-empty, then \<open>addToRealtime\<close> with the second after the first leaves
  the whole state, so the live buffer and the merged buffer, as the first call left it.
\<close>

theorem C5_appendLive_idempotent:
  assumes "normalizeCoord (Latitude p) = normalizeCoord (Latitude q)"
    and "normalizeCoord (Longitude p) = normalizeCoord (Longitude q)"
    and "(case Timestamp p of None \<Rightarrow> '''' | Some t \<Rightarrow> t) = (case Timestamp q of None \<Rightarrow> '''' | Some t \<Rightarrow> t)"
  shows "addToRealtime D (addToRealtime D st p) q = addToRealtime D st p"
proof -
  have h: "hashPoint (normalizePoint q) = hashPoint (normalizePoint p)"
    using hashPoint_normalizePoint_cong [OF assms] by simp
  have "hashPoint (normalizePoint p) \<in> realtimeHashSet (addToRealtime D st p)"
    by (simp add: addToRealtime_def Let_def rebuildFinalBuffer_fields)
  then show ?thesis
    using h by (simp add: addToRealtime_def [of D "addToRealtime D st p" q] Let_def)
qed

theorem C5_appendLive_idempotent_witness:
  "addToRealtime isoDateTime
     (addToRealtime isoDateTime initialTrace
        \<lparr>Latitude = Fin (5304129097834391 / 1125899906842624), Longitude = Fin 2,
           Timestamp = None\<rparr>)
     \<lparr>Latitude = Fin (5304128534884437 / 1125899906842624), Longitude = Fin 2,
        Timestamp = Some ''''\<rparr>
   = addToRealtime isoDateTime initialTrace
       \<lparr>Latitude = Fin (5304129097834391 / 1125899906842624), Longitude = Fin 2,
          Timestamp = None\<rparr>
   \<and> realtimeBuffer
       (addToRealtime isoDateTime initialTrace
          \<lparr>Latitude = Fin (5304129097834391 / 1125899906842624), Longitude = Fin 2,
             Timestamp = None\<rparr>)
     = [\<lparr>Latitude = Fin (5304129097834391 / 1125899906842624), Longitude = Fin 2,
          Timestamp = None\<rparr>]"
proof -
  have "addToRealtime isoDateTime
     (addToRealtime isoDateTime initialTrace
        \<lparr>Latitude = Fin (5304129097834391 / 1125899906842624), Longitude = Fin 2,
           Timestamp = None\<rparr>)
     \<lparr>Latitude = Fin (5304128534884437 / 1125899906842624), Longitude = Fin 2,
        Timestamp = Some ''''\<rparr>
   = addToRealtime isoDateTime initialTrace
       \<lparr>Latitude = Fin (5304129097834391 / 1125899906842624), Longitude = Fin 2,
          Timestamp = None\<rparr>"
    by (rule C5_appendLive_idempotent)
      (simp_all add: normalizeCoord_rounds_the_product normalizeCoord_examples)
  moreover have "realtimeBuffer
       (addToRealtime isoDateTime initialTrace
          \<lparr>Latitude = Fin (5304129097834391 / 1125899906842624), Longitude = Fin 2,
             Timestamp = None\<rparr>)
     = [\<lparr>Latitude = Fin (5304129097834391 / 1125899906842624), Longitude = Fin 2,
          Timestamp = None\<rparr>]"
    by (simp add: addToRealtime_def normalizePoint_def insertSorted_def
        insertSorted_loop.simps rebuildFinalBuffer_def Let_def initialTrace_def
        normalizeCoord_rounds_the_product normalizeCoord_examples)
  ultimately show ?thesis by simp
qed

text \<open>
  The double 4.711012 followed by the double 4.7110125 is not such a pair: the two are
  normalized to 4.711012 and 4.711013 and both points are stored.
\<close>

lemma neighbouring_doubles_are_both_stored:
  "realtimeBuffer
     (addToRealtime isoDateTime
        (addToRealtime isoDateTime initialTrace
           \<lparr>Latitude = Fin (1326031992983621 / 281474976710656), Longitude = Fin 2,
              Timestamp = None\<rparr>)
        \<lparr>Latitude = Fin (5304128534884437 / 1125899906842624), Longitude = Fin 2,
           Timestamp = None\<rparr>)
   = [\<lparr>Latitude = Fin (5304129097834391 / 1125899906842624), Longitude = Fin 2,
        Timestamp = None\<rparr>,
      \<lparr>Latitude = Fin (1326031992983621 / 281474976710656), Longitude = Fin 2,
        Timestamp = None\<rparr>]"
proof -
  have d: "decimal 4711012 = ''4711012''" by (simp add: decimal.simps)
  have t: "toFixed 6 (Fin (1326031992983621 / 281474976710656)) = ''4.711012''"
    by (simp add: toFixed_def d)
  show ?thesis
    by (simp add: addToRealtime_def normalizePoint_def insertSorted_def
        insertSorted_loop.simps rebuildFinalBuffer_def Let_def initialTrace_def
        hashPoint_def COORD_DECIMALS_def toFixed_examples t parse_examples js_lt_def
        normalizeCoord_rounds_the_product normalizeCoord_examples)
qed

subsection \<open>Order of the live buffer\<close>

text \<open>
  As long as every timestamp parses to a number (a missing one is 0), the binary search
  finds the lower bound and the insertion keeps the buffer in ascending order.
\<close>

lemma insertSorted_loop_bounds:
  assumes "left \<le> right"
  shows "left \<le> insertSorted_loop D buffer ts left right
    \<and> insertSorted_loop D buffer ts left right \<le> right"
  using assms
proof (induction D buffer ts left right rule: insertSorted_loop.induct)
  case (1 D buffer ts left right)
  show ?case
  proof (cases "left < right")
    case True
    let ?mid = "(left + right) div 2"
    have m: "left \<le> ?mid" "?mid < right" using True by linarith+
    show ?thesis
    proof (cases "js_lt (parseTimestamp D (Timestamp (buffer ! ?mid))) ts")
      case lt: True
      have "?mid + 1 \<le> insertSorted_loop D buffer ts (?mid + 1) right
        \<and> insertSorted_loop D buffer ts (?mid + 1) right \<le> right"
        using "1.IH"(1) [OF True refl lt] m by simp
      then show ?thesis
        using True lt m by (subst (1 2) insertSorted_loop.simps) (simp add: Let_def)
    next
      case ge: False
      have "left \<le> insertSorted_loop D buffer ts left ?mid
        \<and> insertSorted_loop D buffer ts left ?mid \<le> ?mid"
        using "1.IH"(2) [OF True refl ge] m by simp
      then show ?thesis
        using True ge m by (subst (1 2) insertSorted_loop.simps) (simp add: Let_def)
    qed
  next
    case False
    then show ?thesis using "1.prems" by (subst (1 2) insertSorted_loop.simps) simp
  qed
qed

lemma ascending_nth:
  assumes "ascendingByTimestamp D xs" "numericTimestamps D xs" "i \<le> j" "j < length xs"
  shows "the (parseTimestamp D (Timestamp (xs ! i))) \<le> the (parseTimestamp D (Timestamp (xs ! j)))"
proof (cases "i = j")
  case True
  then show ?thesis by simp
next
  case False
  then have "i < j" using assms(3) by simp
  then have "\<not> js_lt (parseTimestamp D (Timestamp (xs ! j))) (parseTimestamp D (Timestamp (xs ! i)))"
    using assms(1,4) by (simp add: ascendingByTimestamp_def sorted_wrt_iff_nth_less)
  moreover have "parseTimestamp D (Timestamp (xs ! i)) \<noteq> None" "parseTimestamp D (Timestamp (xs ! j)) \<noteq> None"
    using assms(2,3,4) by (simp_all add: numericTimestamps_def list_all_length)
  ultimately show ?thesis by (auto simp add: js_lt_def)
qed

lemma insertSorted_loop_partition:
  assumes "ascendingByTimestamp D buffer" "numericTimestamps D buffer" "ts \<noteq> None"
    and "left \<le> right" "right \<le> length buffer"
    and "\<forall>i < left. js_lt (parseTimestamp D (Timestamp (buffer ! i))) ts"
    and "\<forall>i. right \<le> i \<and> i < length buffer \<longrightarrow> \<not> js_lt (parseTimestamp D (Timestamp (buffer ! i))) ts"
  shows "(\<forall>i < insertSorted_loop D buffer ts left right.
            js_lt (parseTimestamp D (Timestamp (buffer ! i))) ts)
    \<and> (\<forall>i. insertSorted_loop D buffer ts left right \<le> i \<and> i < length buffer \<longrightarrow>
            \<not> js_lt (parseTimestamp D (Timestamp (buffer ! i))) ts)"
  using assms
proof (induction D buffer ts left right rule: insertSorted_loop.induct)
  case (1 D buffer ts left right)
  obtain t where t: "ts = Some t" using "1.prems"(3) by auto
  show ?case
  proof (cases "left < right")
    case True
    let ?mid = "(left + right) div 2"
    have m: "left \<le> ?mid" "?mid < right" "?mid < length buffer"
      using True "1.prems"(5) by linarith+
    have num: "\<And>i. i < length buffer \<Longrightarrow> parseTimestamp D (Timestamp (buffer ! i)) \<noteq> None"
      using "1.prems"(2) by (simp add: numericTimestamps_def list_all_length)
    show ?thesis
    proof (cases "js_lt (parseTimestamp D (Timestamp (buffer ! ?mid))) ts")
      case lt: True
      have below: "\<forall>i < ?mid + 1. js_lt (parseTimestamp D (Timestamp (buffer ! i))) ts"
      proof (intro allI impI)
        fix i assume "i < ?mid + 1"
        then have i: "i \<le> ?mid" by simp
        have "the (parseTimestamp D (Timestamp (buffer ! i)))
            \<le> the (parseTimestamp D (Timestamp (buffer ! ?mid)))"
          by (rule ascending_nth [OF "1.prems"(1,2) i m(3)])
        moreover have "parseTimestamp D (Timestamp (buffer ! i)) \<noteq> None"
          using num i m(3) by simp
        ultimately show "js_lt (parseTimestamp D (Timestamp (buffer ! i))) ts"
          using lt t by (auto simp add: js_lt_def split: option.splits)
      qed
      have "?mid + 1 \<le> right" using m by simp
      from "1.IH"(1) [OF True refl lt "1.prems"(1,2,3) this "1.prems"(5) below "1.prems"(7)]
      show ?thesis
        using True lt by (subst (1 2) insertSorted_loop.simps) (simp add: Let_def)
    next
      case ge: False
      have above: "\<forall>i. ?mid \<le> i \<and> i < length buffer \<longrightarrow>
          \<not> js_lt (parseTimestamp D (Timestamp (buffer ! i))) ts"
      proof (intro allI impI)
        fix i assume i: "?mid \<le> i \<and> i < length buffer"
        have "the (parseTimestamp D (Timestamp (buffer ! ?mid)))
            \<le> the (parseTimestamp D (Timestamp (buffer ! i)))"
          using ascending_nth [OF "1.prems"(1,2)] i by simp
        moreover have "parseTimestamp D (Timestamp (buffer ! ?mid)) \<noteq> None"
          using num m(3) by simp
        moreover have "parseTimestamp D (Timestamp (buffer ! i)) \<noteq> None"
          using num i by simp
        ultimately show "\<not> js_lt (parseTimestamp D (Timestamp (buffer ! i))) ts"
          using ge t by (auto simp add: js_lt_def split: option.splits)
      qed
      have "?mid \<le> length buffer" using m by simp
      from "1.IH"(2) [OF True refl ge "1.prems"(1,2,3) m(1) this "1.prems"(6) above]
      show ?thesis
        using True ge by (subst (1 2) insertSorted_loop.simps) (simp add: Let_def)
    qed
  next
    case False
    then have "insertSorted_loop D buffer ts left right = left"
      by (subst insertSorted_loop.simps) simp
    moreover have "left = right" using False "1.prems"(4) by simp
    ultimately show ?thesis using "1.prems"(6,7) by simp
  qed
qed

lemma insertSorted_ascending:
  assumes asc: "ascendingByTimestamp D buffer" and num: "numericTimestamps D buffer"
    and pn: "parseTimestamp D (Timestamp point) \<noteq> None"
  shows "ascendingByTimestamp D (fst (insertSorted D buffer point))
    \<and> numericTimestamps D (fst (insertSorted D buffer point))"
proof -
  let ?ts = "parseTimestamp D (Timestamp point)"
  let ?r = "insertSorted_loop D buffer ?ts 0 (length buffer)"
  let ?P = "\<lambda>p q. \<not> js_lt (parseTimestamp D (Timestamp q)) (parseTimestamp D (Timestamp p))"
  have r: "?r \<le> length buffer"
    using insertSorted_loop_bounds [of 0 "length buffer" D buffer ?ts] by simp
  have part: "(\<forall>i < ?r. js_lt (parseTimestamp D (Timestamp (buffer ! i))) ?ts)
    \<and> (\<forall>i. ?r \<le> i \<and> i < length buffer \<longrightarrow> \<not> js_lt (parseTimestamp D (Timestamp (buffer ! i))) ?ts)"
    by (rule insertSorted_loop_partition [OF asc num pn]) auto
  have sw: "sorted_wrt ?P buffer" using asc by (simp add: ascendingByTimestamp_def)
  have "sorted_wrt ?P (take ?r buffer @ drop ?r buffer)" using sw by simp
  then have td: "sorted_wrt ?P (take ?r buffer)" "sorted_wrt ?P (drop ?r buffer)"
    "\<forall>x \<in> set (take ?r buffer). \<forall>y \<in> set (drop ?r buffer). ?P x y"
    unfolding sorted_wrt_append by blast+
  have lo: "\<forall>x \<in> set (take ?r buffer). ?P x point"
  proof
    fix x assume "x \<in> set (take ?r buffer)"
    then obtain i where i: "i < ?r" "x = buffer ! i"
      using r by (auto simp add: in_set_conv_nth)
    then have "js_lt (parseTimestamp D (Timestamp x)) ?ts" using part by simp
    then show "?P x point" by (auto simp add: js_lt_def split: option.splits)
  qed
  have hi: "\<forall>y \<in> set (drop ?r buffer). ?P point y"
  proof
    fix y assume "y \<in> set (drop ?r buffer)"
    then obtain i where i: "i < length buffer - ?r" "y = buffer ! (?r + i)"
      using r by (auto simp add: in_set_conv_nth)
    then show "?P point y" using part by simp
  qed
  have "sorted_wrt ?P (take ?r buffer @ [point] @ drop ?r buffer)"
    using td lo hi by (simp add: sorted_wrt_append)
  moreover have "numericTimestamps D (take ?r buffer @ [point] @ drop ?r buffer)"
    using num pn
    by (auto simp add: numericTimestamps_def list_all_iff dest: in_set_takeD in_set_dropD)
  ultimately show ?thesis
    by (simp add: insertSorted_def ascendingByTimestamp_def Let_def)
qed

lemma addToRealtime_ascending:
  assumes "ascendingByTimestamp D (realtimeBuffer st)" "numericTimestamps D (realtimeBuffer st)"
    and "parseTimestamp D (Timestamp p) \<noteq> None"
  shows "ascendingByTimestamp D (realtimeBuffer (addToRealtime D st p))
    \<and> numericTimestamps D (realtimeBuffer (addToRealtime D st p))"
proof -
  have "parseTimestamp D (Timestamp (normalizePoint p)) \<noteq> None"
    using assms(3) by (simp add: normalizePoint_def)
  from insertSorted_ascending [OF assms(1,2) this] assms(1,2) show ?thesis
    by (simp add: addToRealtime_def Let_def rebuildFinalBuffer_fields)
qed

lemma appendLive_keeps_order_when_timestamps_parse:
  assumes "ascendingByTimestamp D (realtimeBuffer st)" "numericTimestamps D (realtimeBuffer st)"
    and "numericTimestamps D ps"
  shows "ascendingByTimestamp D (realtimeBuffer (foldl (addToRealtime D) st ps))
    \<and> numericTimestamps D (realtimeBuffer (foldl (addToRealtime D) st ps))"
  using assms
proof (induction ps arbitrary: st)
  case Nil
  then show ?case by simp
next
  case (Cons p ps)
  have p: "parseTimestamp D (Timestamp p) \<noteq> None" and ps: "numericTimestamps D ps"
    using Cons.prems(3) by (simp_all add: numericTimestamps_def)
  from addToRealtime_ascending [OF Cons.prems(1,2) p]
  have "ascendingByTimestamp D (realtimeBuffer (addToRealtime D st p))"
    "numericTimestamps D (realtimeBuffer (addToRealtime D st p))" by simp_all
  from Cons.IH [OF this ps] show ?case by simp
qed

text \<open>
  C4 at its failing input. Four live points arrive with the timestamps 10 s, an unparseable
  string, 5 s and 20 s. The unparseable timestamp parses to NaN, not to 0, and every
  comparison with NaN is false: the binary search is misled and the point at 20 s is
  placed before the point at 10 s.
\<close>

theorem C4_unparseable_timestamp_breaks_order:
  "realtimeBuffer (traceRun isoDateTime
     [live (Some ''1970-01-01T00:00:10Z''), live (Some ''garbage''),
      live (Some ''1970-01-01T00:00:05Z''), live (Some ''1970-01-01T00:00:20Z'')])
   = [tracePoint (Some ''1970-01-01T00:00:05Z''), tracePoint (Some ''1970-01-01T00:00:20Z''),
      tracePoint (Some ''garbage''), tracePoint (Some ''1970-01-01T00:00:10Z'')]
   \<and> \<not> ascendingByTimestamp isoDateTime (realtimeBuffer (traceRun isoDateTime
     [live (Some ''1970-01-01T00:00:10Z''), live (Some ''garbage''),
      live (Some ''1970-01-01T00:00:05Z''), live (Some ''1970-01-01T00:00:20Z'')]))"
  by (simp add: trace_eval ascendingByTimestamp_def)

subsection \<open>Missing and unparseable timestamps\<close>

lemma insertSorted_loop_stays:
  assumes "\<forall>q \<in> set buffer. \<not> js_lt (parseTimestamp D (Timestamp q)) ts" "right \<le> length buffer"
  shows "insertSorted_loop D buffer ts left right = left"
  using assms
proof (induction D buffer ts left right rule: insertSorted_loop.induct)
  case (1 D buffer ts left right)
  show ?case
  proof (cases "left < right")
    case True
    let ?mid = "(left + right) div 2"
    have m: "?mid < length buffer" using True "1.prems"(2) by linarith
    then have nl: "\<not> js_lt (parseTimestamp D (Timestamp (buffer ! ?mid))) ts"
      using "1.prems"(1) by simp
    have "insertSorted_loop D buffer ts left ?mid = left"
      using "1.IH"(2) [OF True refl nl "1.prems"(1)] m by simp
    then show ?thesis
      using True nl by (subst insertSorted_loop.simps) (simp add: Let_def)
  next
    case False
    then show ?thesis by (subst insertSorted_loop.simps) simp
  qed
qed

lemma missingOrUnparseable_parse:
  "missingOrUnparseable D ts \<Longrightarrow> parseTimestamp D ts = Some 0 \<or> parseTimestamp D ts = None"
  by (auto simp add: missingOrUnparseable_def parseTimestamp_def parseIsoToUtc_def split: option.splits)

text \<open>
  Whenever the historical buffer is not empty, the merged buffer agrees with H and L: H is
  only ever filled by an insertion, and every insertion rebuilds the merged buffer.
\<close>

lemma addToRealtime_same_or_merged:
  "addToRealtime D st p = st \<or> mergedInvariant D (addToRealtime D st p)"
  by (simp add: addToRealtime_def Let_def mergedInvariant_rebuild)

lemma addToDummy_same_or_merged:
  "addToDummy D st p = st \<or> mergedInvariant D (addToDummy D st p)"
  by (simp add: addToDummy_def Let_def mergedInvariant_rebuild)

lemma merged_with_history_addToDummy:
  assumes "dummyBuffer st \<noteq> [] \<longrightarrow> mergedInvariant D st"
  shows "dummyBuffer (addToDummy D st p) \<noteq> [] \<longrightarrow> mergedInvariant D (addToDummy D st p)"
  using assms addToDummy_same_or_merged [of D st p] by auto

lemma merged_with_history_loop:
  assumes "dummyBuffer st \<noteq> [] \<longrightarrow> mergedInvariant D st"
  shows "dummyBuffer (historySub_loop D st ps) \<noteq> []
    \<longrightarrow> mergedInvariant D (historySub_loop D st ps)"
  using assms
proof (induction ps arbitrary: st)
  case Nil
  then show ?case by simp
next
  case (Cons r ps)
  show ?case
  proof (cases "acceptedPoint r")
    case None
    then show ?thesis using Cons.IH [OF Cons.prems] by (simp only: historySub_loop_Cons option.case)
  next
    case (Some q)
    then show ?thesis
      using Cons.IH [OF merged_with_history_addToDummy [OF Cons.prems]]
      by (simp only: historySub_loop_Cons option.case)
  qed
qed

lemma merged_with_history_step:
  assumes "dummyBuffer st \<noteq> [] \<longrightarrow> mergedInvariant D st"
  shows "dummyBuffer (traceStep D st ev) \<noteq> [] \<longrightarrow> mergedInvariant D (traceStep D st ev)"
proof (cases ev)
  case (LiveMessage msg)
  show ?thesis
  proof (cases "acceptedPoint msg")
    case None
    then have "gpsSub D st msg = st"
      by (auto simp add: gpsSub_def acceptedPoint_def split: option.splits)
    then show ?thesis using LiveMessage assms by simp
  next
    case (Some q)
    then have "gpsSub D st msg = addToRealtime D st q"
      by (auto simp add: gpsSub_def acceptedPoint_def split: option.splits)
    then show ?thesis
      using LiveMessage assms addToRealtime_same_or_merged [of D st q] by auto
  qed
next
  case (ResponseArrives msg)
  have cleared: "dummyBuffer (st\<lparr>dummyBuffer := [], dummyHashSet := {}\<rparr>) \<noteq> []
      \<longrightarrow> mergedInvariant D (st\<lparr>dummyBuffer := [], dummyHashSet := {}\<rparr>)"
    by simp
  show ?thesis
    using ResponseArrives assms merged_with_history_loop [OF cleared]
    by (auto simp add: historySub_def split: option.splits)
next
  case ClearTrace
  then show ?thesis by (simp add: clearTrace_def)
qed

lemma merged_with_history_foldl:
  assumes "dummyBuffer st \<noteq> [] \<longrightarrow> mergedInvariant D st"
  shows "dummyBuffer (foldl (traceStep D) st evs) \<noteq> []
    \<longrightarrow> mergedInvariant D (foldl (traceStep D) st evs)"
  using assms
proof (induction evs arbitrary: st)
  case Nil
  then show ?case by simp
next
  case (Cons ev evs)
  from Cons.IH [OF merged_with_history_step [OF Cons.prems]] show ?case by simp
qed

lemma merged_with_history:
  "dummyBuffer (traceRun D evs) \<noteq> [] \<Longrightarrow> mergedInvariant D (traceRun D evs)"
  using merged_with_history_foldl [of initialTrace D evs]
  by (simp add: traceRun_def initialTrace_def)

text \<open>
  In a merged state with a historical point at the epoch or later, or with an unparseable
  last historical timestamp, a point of the merged buffer whose timestamp is missing or
  unparseable is a historical point: none is admitted from the live buffer.
\<close>

lemma undated_point_of_merge_is_historical:
  assumes mi: "mergedInvariant D st" and ne: "dummyBuffer st \<noteq> []"
    and cut: "\<not> js_lt (parseTimestamp D (Timestamp (last (dummyBuffer st)))) (Some 0)"
    and mu: "missingOrUnparseable D (Timestamp q)"
    and mem: "q \<in> set (getTrace st)"
  shows "q \<in> set (dummyBuffer st)"
proof -
  have ts: "parseTimestamp D (Timestamp q) = Some 0 \<or> parseTimestamp D (Timestamp q) = None"
    by (rule missingOrUnparseable_parse [OF mu])
  have "q \<in> set (dedupFirst {} (dummyBuffer st @
        filter (\<lambda>p. js_gt (parseTimestamp D (Timestamp p))
                  (parseTimestamp D (Timestamp (last (dummyBuffer st))))) (realtimeBuffer st)))"
    using mi ne mem by (simp add: mergedInvariant_def specMerged_def)
  then have "q \<in> set (dummyBuffer st @
        filter (\<lambda>p. js_gt (parseTimestamp D (Timestamp p))
                  (parseTimestamp D (Timestamp (last (dummyBuffer st))))) (realtimeBuffer st))"
    using set_dedupFirst by blast
  moreover have "\<not> js_gt (parseTimestamp D (Timestamp q))
        (parseTimestamp D (Timestamp (last (dummyBuffer st))))"
    using ts cut by (auto simp add: js_gt_def js_lt_def split: option.splits)
  ultimately show ?thesis by auto
qed

text \<open>
  C9, as stated, fails: a missing timestamp parses to 0, which is not the minimum. With a
  historical point and a live point ten seconds before the epoch, a live point without a
  timestamp is placed after the earlier live point and is admitted to the merged buffer
  although H is not empty.
\<close>

theorem C9_missing_timestamp_after_earlier_point:
  "parseTimestamp isoDateTime None = Some 0
   \<and> parseTimestamp isoDateTime (Some ''1969-12-31T23:59:50Z'') = Some (- 10000)
   \<and> dummyBuffer (traceRun isoDateTime
        [live (Some ''1969-12-31T23:59:50Z''), history [Some ''1969-12-31T23:59:50Z''],
         live None])
     = [tracePoint (Some ''1969-12-31T23:59:50Z'')]
   \<and> realtimeBuffer (traceRun isoDateTime
        [live (Some ''1969-12-31T23:59:50Z''), history [Some ''1969-12-31T23:59:50Z''],
         live None])
     = [tracePoint (Some ''1969-12-31T23:59:50Z''), tracePoint None]
   \<and> getTrace (traceRun isoDateTime
        [live (Some ''1969-12-31T23:59:50Z''), history [Some ''1969-12-31T23:59:50Z''],
         live None])
     = [tracePoint (Some ''1969-12-31T23:59:50Z''), tracePoint None]"
  by (simp add: trace_eval)

text \<open>
  C9, amended. The parsed timestamp of a live point whose timestamp is missing or
  unparseable is never above 0, the epoch. When \<open>addToRealtime\<close> inserts the point, it is
  placed first in L provided no point of L lies before the epoch. And whenever H is not
  empty and its last point does not lie before the epoch, the point is not admitted from L
  to the merged buffer: this holds in every state the service reaches, whether the live
  point or the historical points arrived first, and right after the insertion into any
  state.
\<close>

theorem C9_missing_timestamp_sorts_first_after_epoch:
  assumes mu: "missingOrUnparseable D (Timestamp p0)"
  shows "\<not> js_gt (parseTimestamp D (Timestamp p0)) (Some 0)
    \<and> (hashPoint (normalizePoint p0) \<notin> realtimeHashSet st
         \<and> (\<forall>q \<in> set (realtimeBuffer st). \<not> js_lt (parseTimestamp D (Timestamp q)) (Some 0))
        \<longrightarrow> realtimeBuffer (addToRealtime D st p0) = normalizePoint p0 # realtimeBuffer st)
    \<and> (dummyBuffer (traceRun D evs) \<noteq> []
         \<and> \<not> js_lt (parseTimestamp D (Timestamp (last (dummyBuffer (traceRun D evs))))) (Some 0)
         \<and> normalizePoint p0 \<in> set (getTrace (traceRun D evs))
        \<longrightarrow> normalizePoint p0 \<in> set (dummyBuffer (traceRun D evs)))
    \<and> (hashPoint (normalizePoint p0) \<notin> realtimeHashSet st
         \<and> dummyBuffer st \<noteq> []
         \<and> \<not> js_lt (parseTimestamp D (Timestamp (last (dummyBuffer st)))) (Some 0)
         \<and> normalizePoint p0 \<in> set (getTrace (addToRealtime D st p0))
        \<longrightarrow> normalizePoint p0 \<in> set (dummyBuffer st))"
proof -
  let ?ts = "parseTimestamp D (Timestamp p0)"
  have ts: "?ts = Some 0 \<or> ?ts = None" by (rule missingOrUnparseable_parse [OF mu])
  have tsn: "Timestamp (normalizePoint p0) = Timestamp p0"
    by (simp add: normalizePoint_def)
  have mun: "missingOrUnparseable D (Timestamp (normalizePoint p0))"
    using mu by (simp add: tsn)
  have a: "\<not> js_gt ?ts (Some 0)"
    using ts by (auto simp add: js_gt_def js_lt_def)
  have b: "realtimeBuffer (addToRealtime D st p0) = normalizePoint p0 # realtimeBuffer st"
    if new: "hashPoint (normalizePoint p0) \<notin> realtimeHashSet st"
      and le: "\<forall>q \<in> set (realtimeBuffer st). \<not> js_lt (parseTimestamp D (Timestamp q)) (Some 0)"
  proof -
    have "\<forall>q \<in> set (realtimeBuffer st). \<not> js_lt (parseTimestamp D (Timestamp q)) ?ts"
      using ts le by (auto simp add: js_lt_def split: option.splits)
    then have "insertSorted_loop D (realtimeBuffer st) ?ts 0 (length (realtimeBuffer st)) = 0"
      by (rule insertSorted_loop_stays) simp
    then show ?thesis
      using new
      by (simp add: addToRealtime_def insertSorted_def Let_def rebuildFinalBuffer_fields tsn)
  qed
  have c: "normalizePoint p0 \<in> set (dummyBuffer (traceRun D evs))"
    if ne: "dummyBuffer (traceRun D evs) \<noteq> []"
      and cut: "\<not> js_lt (parseTimestamp D (Timestamp (last (dummyBuffer (traceRun D evs)))))
                  (Some 0)"
      and mem: "normalizePoint p0 \<in> set (getTrace (traceRun D evs))"
    by (rule undated_point_of_merge_is_historical
        [OF merged_with_history [OF ne] ne cut mun mem])
  have d: "normalizePoint p0 \<in> set (dummyBuffer st)"
    if new: "hashPoint (normalizePoint p0) \<notin> realtimeHashSet st"
      and ne: "dummyBuffer st \<noteq> []"
      and cut: "\<not> js_lt (parseTimestamp D (Timestamp (last (dummyBuffer st)))) (Some 0)"
      and mem: "normalizePoint p0 \<in> set (getTrace (addToRealtime D st p0))"
  proof -
    let ?st = "addToRealtime D st p0"
    have mi: "mergedInvariant D ?st"
      using new by (simp add: addToRealtime_def Let_def mergedInvariant_rebuild)
    have h: "dummyBuffer ?st = dummyBuffer st"
      by (simp add: addToRealtime_def Let_def rebuildFinalBuffer_fields)
    from undated_point_of_merge_is_historical [OF mi _ _ mun mem] ne cut h
    show ?thesis by simp
  qed
  from a b c d show ?thesis by blast
qed

theorem C9_missing_timestamp_sorts_first_after_epoch_witness:
  "realtimeBuffer
     (addToRealtime isoDateTime
        (traceRun isoDateTime
           [live (Some ''1970-01-01T00:00:25Z''), history [Some ''1970-01-01T00:00:10Z'']])
        (tracePoint None))
   = [tracePoint None, tracePoint (Some ''1970-01-01T00:00:25Z'')]
   \<and> tracePoint None \<notin> set (getTrace (traceRun isoDateTime
        [live None, history [Some ''1970-01-01T00:00:10Z'']]))
   \<and> tracePoint None \<notin> set (getTrace (traceRun isoDateTime
        [live (Some ''1970-01-01T00:00:25Z''), history [Some ''1970-01-01T00:00:10Z''],
         live None]))"
proof -
  let ?st = "traceRun isoDateTime
           [live (Some ''1970-01-01T00:00:25Z''), history [Some ''1970-01-01T00:00:10Z'']]"
  let ?s1 = "traceRun isoDateTime [live None, history [Some ''1970-01-01T00:00:10Z'']]"
  let ?s2 = "traceRun isoDateTime
           [live (Some ''1970-01-01T00:00:25Z''), history [Some ''1970-01-01T00:00:10Z''],
            live None]"
  have st: "realtimeBuffer ?st = [tracePoint (Some ''1970-01-01T00:00:25Z'')]"
    "realtimeHashSet ?st = {''1.000000|2.000000|1970-01-01T00:00:25Z''}"
    by (simp_all add: trace_eval)
  have h1: "dummyBuffer ?s1 = [tracePoint (Some ''1970-01-01T00:00:10Z'')]"
    by (simp add: trace_eval)
  have h2: "dummyBuffer ?s2 = [tracePoint (Some ''1970-01-01T00:00:10Z'')]"
    by (simp add: trace_eval)
  have np: "normalizePoint (tracePoint None) = tracePoint None"
    by (simp add: normalizePoint_def tracePoint_def normalizeCoord_examples)
  have mu: "missingOrUnparseable isoDateTime (Timestamp (tracePoint None))"
    by (simp add: missingOrUnparseable_def tracePoint_def)
  have new: "hashPoint (normalizePoint (tracePoint None)) \<notin> realtimeHashSet ?st"
    unfolding st np by (simp add: tracePoint_def hashPoint_example)
  have l: "\<forall>q \<in> set (realtimeBuffer ?st).
      \<not> js_lt (parseTimestamp isoDateTime (Timestamp q)) (Some 0)"
    unfolding st by (simp add: tracePoint_def parse_examples js_lt_def)
  have c1: "dummyBuffer ?s1 \<noteq> []
    \<and> \<not> js_lt (parseTimestamp isoDateTime (Timestamp (last (dummyBuffer ?s1)))) (Some 0)
    \<and> tracePoint None \<notin> set (dummyBuffer ?s1)"
    unfolding h1 by (simp add: tracePoint_def parse_examples js_lt_def)
  have c2: "dummyBuffer ?s2 \<noteq> []
    \<and> \<not> js_lt (parseTimestamp isoDateTime (Timestamp (last (dummyBuffer ?s2)))) (Some 0)
    \<and> tracePoint None \<notin> set (dummyBuffer ?s2)"
    unfolding h2 by (simp add: tracePoint_def parse_examples js_lt_def)
  have "realtimeBuffer (addToRealtime isoDateTime ?st (tracePoint None))
      = [tracePoint None, tracePoint (Some ''1970-01-01T00:00:25Z'')]"
    using C9_missing_timestamp_sorts_first_after_epoch [OF mu, of ?st "[]"] new l
    unfolding np by (simp add: st)
  moreover have "tracePoint None \<notin> set (getTrace ?s1)"
    using C9_missing_timestamp_sorts_first_after_epoch
      [OF mu, of initialTrace "[live None, history [Some ''1970-01-01T00:00:10Z'']]"] c1
    unfolding np by blast
  moreover have "tracePoint None \<notin> set (getTrace ?s2)"
    using C9_missing_timestamp_sorts_first_after_epoch
      [OF mu, of initialTrace "[live (Some ''1970-01-01T00:00:25Z''),
         history [Some ''1970-01-01T00:00:10Z''], live None]"] c2
    unfolding np by blast
  ultimately show ?thesis by blast
qed

section \<open>Properties of the WebSocket base service\<close>

lemma latestMessage_step:
  "\<not> isSocketNext e \<Longrightarrow> latestMessage (step s e) = latestMessage s"
proof (cases e)
  case (SocketError i)
  then show ?thesis
    by (simp add: socketError_def finalizeCallback_def connect_def subscriberError_def
        setPipeline_def logLine_def emitStatus_def Let_def)
next
  case (SocketComplete i)
  then show ?thesis
    by (simp add: socketComplete_def finalizeCallback_def connect_def setPipeline_def
        logLine_def emitStatus_def Let_def)
qed (simp_all add: initialize_def connect_def close_def sendMessage_def timerFires_def
      setPipeline_def logLine_def emitStatus_def Let_def)

lemma latestMessage_run:
  "\<forall>e \<in> set evs. \<not> isSocketNext e \<Longrightarrow> latestMessage (run s evs) = latestMessage s"
  unfolding run_def
  by (induction evs arbitrary: s) (simp_all add: latestMessage_step)

text \<open>
  C10. A subscriber of the last-value observable of a channel (\<open>onMessage\<close>, and \<open>onGPS\<close>,
  \<open>onResponse\<close>, \<open>onLog\<close> derived from it) that subscribes before any message has come in
  on that channel is at once given null: whatever else has happened to the service since
  its creation, the cached value is still the initial null.
\<close>

theorem C10_null_before_first_message:
  assumes "\<forall>e \<in> set evs. \<not> isSocketNext e"
  shows "onMessage (run newService evs) = None \<and> onGPS (run newService evs) = None
    \<and> onResponse (run newService evs) = None \<and> onLog (run newService evs) = None"
  using latestMessage_run [OF assms, of newService]
  by (simp add: onMessage_def onGPS_def onResponse_def onLog_def newService_def)

theorem C10_null_before_first_message_witness:
  "onMessage (run (newService :: (nat, nat) WebSocketBase)
     [Initialize, SocketError 0, TimerFires 0, SendMessage 7, Close]) = None"
  using C10_null_before_first_message
    [of "[Initialize, SocketError 0, TimerFires 0, SendMessage (7::nat), Close] :: (nat, nat) Event list"]
  by simp

lemmas service_defs = initialize_def connect_def close_def sendMessage_def socketNext_def
  socketError_def socketComplete_def timerFires_def finalizeCallback_def subscriberNext_def
  subscriberError_def setPipeline_def logLine_def emitStatus_def Let_def

lemmas service_consts = newService_def retryDelay_def reconnectInterval_def
  maxReconnectInterval_def maxRetries_def connectionStatus_def

lemma run_append: "run s (xs @ ys) = run (run s xs) ys"
  by (simp add: run_def)

lemma run_Cons: "run s (e # evs) = run (step s e) evs"
  by (simp add: run_def)

lemma run_Nil: "run s [] = s"
  by (simp add: run_def)

text \<open>
  C8, as stated, fails: \<open>sendMessage\<close> tests the socket handle, not the channel state. Right
  after \<open>initialize()\<close> the state is \<open>connecting\<close> and a message is accepted.
\<close>

theorem C8_accepted_while_connecting:
  "connectionStatus (run (newService :: (nat, nat) WebSocketBase) [Initialize]) = Connecting
   \<and> fst (sendMessage (run (newService :: (nat, nat) WebSocketBase) [Initialize]) 7) = True"
  by (simp add: run_def service_defs service_consts)

text \<open>
  C8, amended. \<open>sendMessage\<close> is accepted exactly when the service holds a socket handle
  (\<open>socket$\<close> is not null), whatever the channel state. Every call returns a boolean and
  never raises: true with the message handed to the socket handle, or false with one logged
  warning and nothing else changed. A message is accepted right after \<open>initialize()\<close>, in the
  state \<open>connecting\<close>, and refused right after \<open>close()\<close>.
\<close>

theorem C8_send_follows_socket_handle:
  "fst (sendMessage s msg) = (socket s \<noteq> None)
   \<and> (socket s \<noteq> None \<longrightarrow> snd (sendMessage s msg) = s\<lparr>sent := sent s @ [msg]\<rparr>)
   \<and> (socket s = None \<longrightarrow>
        snd (sendMessage s msg) = s\<lparr>console := console s @ [WarnSendNotConnected]\<rparr>)
   \<and> connectionStatus (initialize s) = Connecting \<and> fst (sendMessage (initialize s) msg)
   \<and> \<not> fst (sendMessage (close s) msg)"
  by (simp add: sendMessage_def logLine_def initialize_def connect_def close_def emitStatus_def
      connectionStatus_def Let_def)

theorem C8_send_follows_socket_handle_witness:
  "fst (sendMessage (initialize (newService :: (nat, nat) WebSocketBase)) 7)
   \<and> sent (snd (sendMessage (initialize (newService :: (nat, nat) WebSocketBase)) 7)) = [7]
   \<and> \<not> fst (sendMessage (close (initialize (newService :: (nat, nat) WebSocketBase))) 7)
   \<and> console (snd (sendMessage (newService :: (nat, nat) WebSocketBase) 7))
        = [WarnSendNotConnected]"
  using C8_send_follows_socket_handle [of "initialize (newService :: (nat, nat) WebSocketBase)" 7]
    C8_send_follows_socket_handle [of "close (initialize (newService :: (nat, nat) WebSocketBase))" 7]
    C8_send_follows_socket_handle [of "newService :: (nat, nat) WebSocketBase" 7]
  by (simp add: initialize_def connect_def close_def newService_def logLine_def emitStatus_def
      Let_def)

subsection \<open>Retry delays\<close>

lemma retryDelay_le_max: "retryDelay retryCount \<le> maxReconnectInterval"
  by (simp add: retryDelay_def)

lemma retryDelay_doubles: "retryDelay (Suc k) = min (2 * retryDelay k) maxReconnectInterval"
  by (simp add: retryDelay_def min_def)

text \<open>
  The delays of the first five retries after \<open>initialize()\<close>: \<open>retry\<close> calls the delay
  callback with the number of the retry, which starts at 1.
\<close>

lemma first_five_delays:
  "timers (run (newService :: (nat, nat) WebSocketBase)
     [Initialize, SocketError 0, TimerFires 0, SocketError 0, TimerFires 0, SocketError 0,
      TimerFires 0, SocketError 0, TimerFires 0, SocketError 0])
   = [10000, 20000, 40000, 60000, 60000]"
  by (simp add: run_def service_defs service_consts)

text \<open>
  C2, as stated, fails: the counter is not reset by a successful transition to \<open>connected\<close>.
  After \<open>initialize()\<close> the transport fails, the retry succeeds and a message sets the state to
  \<open>connected\<close>; when the transport fails again the delay is 20000 ms, not the delay of a
  counter that starts again.
\<close>

theorem C2_counter_not_reset_by_connected:
  "connectionStatus (run (newService :: (nat, nat) WebSocketBase)
     [Initialize, SocketError 0, TimerFires 0, SocketNext 0 7]) = Connected
   \<and> timers (run (newService :: (nat, nat) WebSocketBase)
     [Initialize, SocketError 0, TimerFires 0, SocketNext 0 7, SocketError 0]) = [10000, 20000]"
  by (simp add: run_def service_defs service_consts)

text \<open>
  C2, amended. Within the pipeline of one \<open>connect\<close>, the delay before a retry is
  \<open>min(base_delay * 2^k, max_delay)\<close> for the retry counter \<open>k\<close> of the pipeline. The counter
  grows by one with every failed attempt and a transition to \<open>connected\<close> does not reset it:
  the delay after the next failure is twice the delay before, capped at the maximum, and no
  delay exceeds 60000 ms. Only the pipeline of a new \<open>connect\<close> counts afresh.
\<close>

theorem C2_delays_double_within_a_pipeline:
  assumes "i < length (pipelines s)" "phase (pipelines s ! i) = Subscribed"
    and "Suc (soFar (pipelines s ! i)) < maxRetries"
  shows "timers (run s [SocketError i, TimerFires i, SocketNext i msg, SocketError i])
        = timers s @ [retryDelay (Suc (soFar (pipelines s ! i))),
                      retryDelay (Suc (Suc (soFar (pipelines s ! i))))]
      \<and> connectionStatus (run s [SocketError i, TimerFires i, SocketNext i msg]) = Connected
      \<and> retryDelay k = min (reconnectInterval * 2 ^ k) maxReconnectInterval
      \<and> retryDelay (Suc k) = min (2 * retryDelay k) maxReconnectInterval
      \<and> retryDelay k \<le> 60000
      \<and> soFar (last (pipelines (connect a s))) = 0"
proof -
  have "timers (run s [SocketError i, TimerFires i, SocketNext i msg, SocketError i])
        = timers s @ [retryDelay (Suc (soFar (pipelines s ! i))),
                      retryDelay (Suc (Suc (soFar (pipelines s ! i))))]"
    using assms
    by (simp add: run_def socketError_def timerFires_def socketNext_def subscriberNext_def
        setPipeline_def logLine_def emitStatus_def Let_def)
  moreover have
    "connectionStatus (run s [SocketError i, TimerFires i, SocketNext i msg]) = Connected"
    using assms
    by (simp add: run_def socketError_def timerFires_def socketNext_def subscriberNext_def
        setPipeline_def logLine_def emitStatus_def connectionStatus_def Let_def)
  moreover have "retryDelay k \<le> 60000"
    using retryDelay_le_max [of k] by (simp add: maxReconnectInterval_def)
  moreover have "soFar (last (pipelines (connect a s))) = 0"
    by (simp add: connect_def emitStatus_def Let_def)
  ultimately show ?thesis
    using retryDelay_doubles [of k] by (simp add: retryDelay_def)
qed

theorem C2_delays_double_within_a_pipeline_witness:
  "timers (run (run (newService :: (nat, nat) WebSocketBase)
                  [Initialize, SocketError 0, TimerFires 0])
             [SocketError 0, TimerFires 0, SocketNext 0 7, SocketError 0])
    = [10000, 20000, 40000]
   \<and> retryDelay 3 = 40000 \<and> retryDelay 4 = 60000"
proof -
  let ?s = "run (newService :: (nat, nat) WebSocketBase) [Initialize, SocketError 0, TimerFires 0]"
  have s: "?s = \<lparr>socket = Some 0, messages = [], latestMessage = None,
      statusLog = [Connecting, Connecting], isClosed = False,
      pipelines = [\<lparr>attempt = 0, soFar = 1, phase = Subscribed\<rparr>],
      timers = [10000], subscriptions = 2, sent = [],
      console = [LogInitializing, WarnRetry 1 10000]\<rparr>"
    by (simp add: run_def service_defs service_consts)
  have "timers (run ?s [SocketError 0, TimerFires 0, SocketNext 0 7, SocketError 0])
        = timers ?s @ [retryDelay (Suc (soFar (pipelines ?s ! 0))),
                       retryDelay (Suc (Suc (soFar (pipelines ?s ! 0))))]
      \<and> connectionStatus (run ?s [SocketError 0, TimerFires 0, SocketNext 0 7]) = Connected
      \<and> retryDelay 3 = min (reconnectInterval * 2 ^ 3) maxReconnectInterval
      \<and> retryDelay (Suc 3) = min (2 * retryDelay 3) maxReconnectInterval
      \<and> retryDelay 3 \<le> 60000
      \<and> soFar (last (pipelines (connect 1 ?s))) = 0"
    by (rule C2_delays_double_within_a_pipeline) (simp_all add: s maxRetries_def)
  then show ?thesis
    by (simp add: s reconnectInterval_def maxReconnectInterval_def retryDelay_def)
qed

subsection \<open>Retry rounds\<close>

lemma retry_round:
  assumes "pipelines s = [\<lparr>attempt = a, soFar = k, phase = Subscribed\<rparr>]" "k < maxRetries"
  shows "run s [SocketError 0, TimerFires 0] =
    s\<lparr>pipelines := [\<lparr>attempt = a, soFar = Suc k, phase = Subscribed\<rparr>],
      timers := timers s @ [retryDelay (Suc k)],
      subscriptions := Suc (subscriptions s),
      console := console s @ [WarnRetry (Suc k) (retryDelay (Suc k))]\<rparr>"
  using assms
  by (simp add: run_def socketError_def timerFires_def setPipeline_def logLine_def Let_def)

lemma retry_rounds:
  assumes "pipelines s = [\<lparr>attempt = a, soFar = k, phase = Subscribed\<rparr>]" "k + n \<le> maxRetries"
  shows "run s (concat (replicate n [SocketError 0, TimerFires 0])) =
    s\<lparr>pipelines := [\<lparr>attempt = a, soFar = k + n, phase = Subscribed\<rparr>],
      timers := timers s @ map retryDelay [Suc k..<Suc (k + n)],
      subscriptions := subscriptions s + n,
      console := console s @ map (\<lambda>j. WarnRetry j (retryDelay j)) [Suc k..<Suc (k + n)]\<rparr>"
  using assms
proof (induction n arbitrary: s k)
  case 0
  then show ?case by (simp add: run_Nil)
next
  case (Suc n)
  let ?s1 = "run s [SocketError 0, TimerFires 0]"
  have k: "k < maxRetries" using Suc.prems(2) by simp
  have s1: "?s1 = s\<lparr>pipelines := [\<lparr>attempt = a, soFar = Suc k, phase = Subscribed\<rparr>],
      timers := timers s @ [retryDelay (Suc k)],
      subscriptions := Suc (subscriptions s),
      console := console s @ [WarnRetry (Suc k) (retryDelay (Suc k))]\<rparr>"
    by (rule retry_round [OF Suc.prems(1) k])
  have p1: "pipelines ?s1 = [\<lparr>attempt = a, soFar = Suc k, phase = Subscribed\<rparr>]"
    by (simp add: s1)
  have b: "Suc k + n \<le> maxRetries" using Suc.prems(2) by simp
  have split: "concat (replicate (Suc n) [SocketError 0, TimerFires 0 :: ('a, 'b) Event]) =
    [SocketError 0, TimerFires 0] @ concat (replicate n [SocketError 0, TimerFires 0])"
    by simp
  have u: "[Suc k..<Suc (k + Suc n)] = Suc k # [Suc (Suc k)..<Suc (Suc k + n)]"
    by (simp add: upt_conv_Cons)
  show ?case
    unfolding split run_append Suc.IH [OF p1 b] u
    by (simp add: s1)
qed

lemma after_initialize:
  "run (newService :: ('i, 'o) WebSocketBase) [Initialize] =
    \<lparr>socket = Some 0, messages = [], latestMessage = None, statusLog = [Connecting, Connecting],
      isClosed = False, pipelines = [\<lparr>attempt = 0, soFar = 0, phase = Subscribed\<rparr>],
      timers = [], subscriptions = 1, sent = [], console = [LogInitializing]\<rparr>"
  by (simp add: run_def initialize_def connect_def newService_def logLine_def emitStatus_def Let_def)

lemma after_49_rounds:
  "run (newService :: ('i, 'o) WebSocketBase)
     (Initialize # concat (replicate 49 [SocketError 0, TimerFires 0])) =
    \<lparr>socket = Some 0, messages = [], latestMessage = None, statusLog = [Connecting, Connecting],
      isClosed = False, pipelines = [\<lparr>attempt = 0, soFar = 49, phase = Subscribed\<rparr>],
      timers = map retryDelay [Suc 0..<50], subscriptions = 50, sent = [],
      console = LogInitializing # map (\<lambda>j. WarnRetry j (retryDelay j)) [Suc 0..<50]\<rparr>"
proof -
  let ?s = "run (newService :: ('i, 'o) WebSocketBase) [Initialize]"
  have p: "pipelines ?s = [\<lparr>attempt = 0, soFar = 0, phase = Subscribed\<rparr>]"
    by (simp add: after_initialize)
  have b: "0 + 49 \<le> maxRetries" by (simp add: maxRetries_def)
  have "run newService (Initialize # concat (replicate 49 [SocketError 0, TimerFires 0])) =
    run ?s (concat (replicate 49 [SocketError 0, TimerFires 0]))"
    by (simp only: run_Cons run_Nil)
  also have "\<dots> = ?s\<lparr>pipelines := [\<lparr>attempt = 0, soFar = 0 + 49, phase = Subscribed\<rparr>],
      timers := timers ?s @ map retryDelay [Suc 0..<Suc (0 + 49)],
      subscriptions := subscriptions ?s + 49,
      console := console ?s @ map (\<lambda>j. WarnRetry j (retryDelay j)) [Suc 0..<Suc (0 + 49)]\<rparr>"
    by (rule retry_rounds [OF p b])
  finally show ?thesis by (simp add: after_initialize)
qed

text \<open>
  C3 at its failing input. After \<open>initialize()\<close>, fifty connection attempts fail in a row, with
  no message and no \<open>close()\<close>. The state is then \<open>connecting\<close>, not \<open>disconnected\<close>, and a retry
  timer is pending. When it fires and the fifty-first attempt fails too, \<open>retry\<close> gives up, the
  \<open>finalize\<close> callback finds \<open>attempt = 0 < maxRetries\<close> and calls \<open>connect(1)\<close>: a second
  pipeline is subscribed at once, which is the fifty-second connection attempt.
\<close>

theorem C3_reconnects_after_fifty_failures:
  "connectionStatus (run (newService :: (nat, nat) WebSocketBase)
      (Initialize # concat (replicate 49 [SocketError 0, TimerFires 0]) @ [SocketError 0]))
     = Connecting
   \<and> map phase (pipelines (run (newService :: (nat, nat) WebSocketBase)
      (Initialize # concat (replicate 49 [SocketError 0, TimerFires 0]) @ [SocketError 0])))
     = [Delaying]
   \<and> subscriptions (run (newService :: (nat, nat) WebSocketBase)
      (Initialize # concat (replicate 49 [SocketError 0, TimerFires 0]) @ [SocketError 0])) = 50
   \<and> connectionStatus (run (newService :: (nat, nat) WebSocketBase)
      (Initialize # concat (replicate 49 [SocketError 0, TimerFires 0])
         @ [SocketError 0, TimerFires 0, SocketError 0])) = Connecting
   \<and> pipelines (run (newService :: (nat, nat) WebSocketBase)
      (Initialize # concat (replicate 49 [SocketError 0, TimerFires 0])
         @ [SocketError 0, TimerFires 0, SocketError 0]))
       = [\<lparr>attempt = 0, soFar = 51, phase = Terminated\<rparr>,
          \<lparr>attempt = 1, soFar = 0, phase = Subscribed\<rparr>]
   \<and> subscriptions (run (newService :: (nat, nat) WebSocketBase)
      (Initialize # concat (replicate 49 [SocketError 0, TimerFires 0])
         @ [SocketError 0, TimerFires 0, SocketError 0])) = 52"
  unfolding append_Cons [symmetric] run_append after_49_rounds
  by (simp add: run_def socketError_def timerFires_def finalizeCallback_def connect_def
      subscriberError_def setPipeline_def logLine_def emitStatus_def maxRetries_def
      connectionStatus_def Let_def)

text \<open>
  Only the pipeline built by \<open>connect(maxRetries)\<close> ends without a successor: the channel
  gives up after \<open>maxRetries + 1\<close> pipelines of \<open>maxRetries + 1\<close> attempts each.
\<close>

lemma finalize_gives_up_at_maxRetries:
  "\<not> isClosed s \<Longrightarrow>
   finalizeCallback maxRetries s
     = emitStatus Disconnected (logLine ErrorMaximumAttempts (s\<lparr>socket := None\<rparr>))"
  by (simp add: finalizeCallback_def Let_def)

lemma finalize_reconnects_below_maxRetries:
  "\<not> isClosed s \<Longrightarrow> a < maxRetries \<Longrightarrow>
   finalizeCallback a s
     = connect (Suc a) (logLine WarnClosedUnexpectedly (emitStatus Disconnected (s\<lparr>socket := None\<rparr>)))"
  by (simp add: finalizeCallback_def Let_def)

subsection \<open>After an intentional closure\<close>

text \<open>
  While \<open>initialize()\<close> is not called again, the flag of intentional closure stays set and
  the status \<open>connecting\<close> is never emitted.
\<close>

lemma closed_step:
  assumes "isClosed s" "e \<noteq> Initialize"
  shows "isClosed (step s e)
    \<and> (\<exists>xs. statusLog (step s e) = statusLog s @ xs \<and> Connecting \<notin> set xs)"
  using assms
  by (cases e) (auto simp add: close_def sendMessage_def socketNext_def socketError_def
      socketComplete_def timerFires_def finalizeCallback_def subscriberNext_def
      subscriberError_def setPipeline_def logLine_def emitStatus_def Let_def)

lemma closed_run:
  assumes "isClosed s" "\<forall>e \<in> set evs. e \<noteq> Initialize"
  shows "isClosed (run s evs)
    \<and> (\<exists>xs. statusLog (run s evs) = statusLog s @ xs \<and> Connecting \<notin> set xs)"
  using assms
proof (induction evs arbitrary: s)
  case Nil
  then show ?case by (simp add: run_def)
next
  case (Cons e evs)
  from Cons.prems have c: "isClosed (step s e)"
    and x: "\<exists>xs. statusLog (step s e) = statusLog s @ xs \<and> Connecting \<notin> set xs"
    using closed_step [of s e] by auto
  from x obtain xs where xs: "statusLog (step s e) = statusLog s @ xs" "Connecting \<notin> set xs"
    by blast
  from Cons.IH [OF c] Cons.prems obtain ys where
    ys: "isClosed (run (step s e) evs)"
      "statusLog (run (step s e) evs) = statusLog (step s e) @ ys" "Connecting \<notin> set ys"
    by auto
  have "run s (e # evs) = run (step s e) evs" by (simp add: run_def)
  with xs ys show ?case by auto
qed

lemma no_connecting_after_close:
  assumes "\<forall>e \<in> set evs. e \<noteq> Initialize"
  shows "connectionStatus (close s) = Disconnected
    \<and> (\<exists>xs. statusLog (run (close s) evs) = statusLog (close s) @ xs \<and> Connecting \<notin> set xs)"
  using closed_run [of "close s" evs] assms
  by (simp add: close_def emitStatus_def connectionStatus_def)

text \<open>
  C7 at its failing input. The transport fails once after \<open>initialize()\<close>, and \<open>close()\<close> is
  called while the retry timer is pending. The state is \<open>disconnected\<close> and the closure is
  marked intentional, but the timer is not cancelled: when it fires, \<open>retry\<close> subscribes to
  the socket again, a second connection attempt that nobody asked for. When that attempt
  fails, \<open>retry\<close> starts the next timer and makes a third attempt, and so on, with the
  closure still marked intentional.
\<close>

theorem C7_retry_reconnects_after_close:
  "isClosed (run (newService :: (nat, nat) WebSocketBase) [Initialize, SocketError 0, Close])
   \<and> connectionStatus (run (newService :: (nat, nat) WebSocketBase)
        [Initialize, SocketError 0, Close]) = Disconnected
   \<and> subscriptions (run (newService :: (nat, nat) WebSocketBase)
        [Initialize, SocketError 0, Close]) = 1
   \<and> subscriptions (run (newService :: (nat, nat) WebSocketBase)
        [Initialize, SocketError 0, Close, TimerFires 0]) = 2
   \<and> map phase (pipelines (run (newService :: (nat, nat) WebSocketBase)
        [Initialize, SocketError 0, Close, TimerFires 0])) = [Subscribed]
   \<and> isClosed (run (newService :: (nat, nat) WebSocketBase)
        [Initialize, SocketError 0, Close, TimerFires 0, SocketError 0, TimerFires 0])
   \<and> subscriptions (run (newService :: (nat, nat) WebSocketBase)
        [Initialize, SocketError 0, Close, TimerFires 0, SocketError 0, TimerFires 0]) = 3
   \<and> timers (run (newService :: (nat, nat) WebSocketBase)
        [Initialize, SocketError 0, Close, TimerFires 0, SocketError 0, TimerFires 0])
       = [10000, 20000]"
  by (simp add: run_def service_defs service_consts)

end
